theory Spec2Isabelle
  imports Main "HOL-Library.Word" "HOL-Library.AList"
begin

section \<open>Twilio Media Streams transport: channels, audio buffers, connection, provider\<close>

text \<open>
  A shallow embedding of the transport package (Provider, Connection, audioWriter,
  audioReader). One goroutine is followed at a time: an operation that cannot proceed
  without another goroutine (a send on a full channel, a receive on an empty open channel,
  a lock that is already held) is the outcome \<open>Blocked\<close> or \<open>Deadlocked\<close>, a run-time
  panic is the outcome \<open>Panicked\<close>.
\<close>

subsection \<open>Outcomes\<close>

datatype ('r, 's) outcome =
    Returned 'r 's
  | Blocked 's
  | Panicked 's
  | Deadlocked 's

fun obind :: "('r, 's) outcome \<Rightarrow> ('r \<Rightarrow> 's \<Rightarrow> ('q, 's) outcome) \<Rightarrow> ('q, 's) outcome" where
  "obind (Returned r s) f = f r s"
| "obind (Blocked s) f = Blocked s"
| "obind (Panicked s) f = Panicked s"
| "obind (Deadlocked s) f = Deadlocked s"

subsection \<open>Buffered Go channels\<close>

text \<open>
  \<open>make(chan T, n)\<close>: a FIFO queue of at most \<open>n\<close> elements and a closed flag.
  \<open>chan_send\<close> is \<open>ch <- x\<close>: it panics on a closed channel, enqueues when there is room,
  and otherwise cannot proceed (\<open>SendWouldBlock\<close>: the \<open>default\<close> branch of a
  \<open>select\<close>, or blocking for a plain send). \<open>chan_recv\<close> is \<open><-ch\<close>: the oldest
  element when there is one, the zero value with \<open>ok = false\<close> on a closed empty channel,
  and otherwise it cannot proceed.
\<close>

record 'a chan =
  buf :: "'a list"
  cap :: nat
  chan_closed :: bool

definition make_chan :: "nat \<Rightarrow> 'a chan" where
  "make_chan n = \<lparr>buf = [], cap = n, chan_closed = False\<rparr>"

datatype 'a send_result = Sent "'a chan" | SendWouldBlock | SendPanic

datatype 'a recv_result = Received 'a "'a chan" | RecvClosed | RecvWouldBlock

definition chan_send :: "'a chan \<Rightarrow> 'a \<Rightarrow> 'a send_result" where
  "chan_send c x =
     (if chan_closed c then SendPanic
      else if length (buf c) < cap c then Sent (c\<lparr>buf := buf c @ [x]\<rparr>)
      else SendWouldBlock)"

definition chan_recv :: "'a chan \<Rightarrow> 'a recv_result" where
  "chan_recv c =
     (case buf c of
        x # xs \<Rightarrow> Received x (c\<lparr>buf := xs\<rparr>)
      | [] \<Rightarrow> if chan_closed c then RecvClosed else RecvWouldBlock)"

definition chan_close :: "'a chan \<Rightarrow> 'a chan option" where
  "chan_close c = (if chan_closed c then None else Some (c\<lparr>chan_closed := True\<rparr>))"

subsection \<open>Errors\<close>

type_synonym bytes = "8 word list"

text \<open>
  An error returned by \<open>wsConn.ReadMessage\<close>: a websocket close error with its close
  code, or any other failure. \<open>IsCloseError\<close> is the library's test: the error is a close
  error whose code is one of the given codes.
\<close>

datatype ws_error = CloseError int | OtherError string

definition CloseNormalClosure :: int where
  "CloseNormalClosure = 1000"

definition CloseGoingAway :: int where
  "CloseGoingAway = 1001"

fun IsCloseError :: "ws_error \<Rightarrow> int list \<Rightarrow> bool" where
  "IsCloseError (CloseError code) codes = (code \<in> set codes)"
| "IsCloseError (OtherError msg) codes = False"

datatype io_error = ErrClosedPipe | EOF

subsection \<open>audioWriter: the buffer towards Twilio\<close>

record audioWriter =
  w_ch :: "bytes chan"
  w_closed :: bool

definition newAudioWriter :: audioWriter where
  "newAudioWriter = \<lparr>w_ch = make_chan 100, w_closed = False\<rparr>"

text \<open>
  \<open>Write\<close> returns \<open>(n, err)\<close>. On a full channel the \<open>default\<close> branch receives one
  element if there is one (\<open>select { case <-w.ch: default: }\<close>) and then sends with a
  plain, blocking send.
\<close>

definition audioWriter_Write ::
  "audioWriter \<Rightarrow> bytes \<Rightarrow> (nat \<times> io_error option, audioWriter) outcome" where
  "audioWriter_Write w p =
     (if w_closed w then Returned (0, Some ErrClosedPipe) w
      else
        (case chan_send (w_ch w) p of
           Sent c \<Rightarrow> Returned (length p, None) (w\<lparr>w_ch := c\<rparr>)
         | SendPanic \<Rightarrow> Panicked w
         | SendWouldBlock \<Rightarrow>
             (let c1 = (case chan_recv (w_ch w) of
                          Received old c \<Rightarrow> c
                        | RecvClosed \<Rightarrow> w_ch w
                        | RecvWouldBlock \<Rightarrow> w_ch w);
                  w1 = w\<lparr>w_ch := c1\<rparr>
              in (case chan_send c1 p of
                    Sent c \<Rightarrow> Returned (length p, None) (w\<lparr>w_ch := c\<rparr>)
                  | SendPanic \<Rightarrow> Panicked w1
                  | SendWouldBlock \<Rightarrow> Blocked w1))))"

definition audioWriter_Close :: "audioWriter \<Rightarrow> (io_error option, audioWriter) outcome" where
  "audioWriter_Close w =
     (if \<not> w_closed w then
        (case chan_close (w_ch w) of
           None \<Rightarrow> Panicked (w\<lparr>w_closed := True\<rparr>)
         | Some c \<Rightarrow> Returned None (w\<lparr>w_closed := True, w_ch := c\<rparr>))
      else Returned None w)"

text \<open>Writing a list of chunks in order; the results of the writes are collected.\<close>

fun write_chunks ::
  "audioWriter \<Rightarrow> bytes list \<Rightarrow> ((nat \<times> io_error option) list, audioWriter) outcome" where
  "write_chunks w [] = Returned [] w"
| "write_chunks w (p # ps) =
     obind (audioWriter_Write w p)
       (\<lambda>r w'. obind (write_chunks w' ps) (\<lambda>rs w''. Returned (r # rs) w''))"

subsection \<open>audioReader: the buffer from Twilio\<close>

record audioReader =
  r_ch :: "bytes chan"
  r_buffer :: bytes

definition newAudioReader :: audioReader where
  "newAudioReader = \<lparr>r_ch = make_chan 100, r_buffer = []\<rparr>"

text \<open>
  \<open>Read(p)\<close> with \<open>len(p) = lenp\<close>. The result is the bytes copied into \<open>p\<close> (their
  number is the \<open>n\<close> of the source) and the error.
\<close>

definition audioReader_Read ::
  "audioReader \<Rightarrow> nat \<Rightarrow> (bytes \<times> io_error option, audioReader) outcome" where
  "audioReader_Read r lenp =
     (if length (r_buffer r) > 0 then
        (let n = min lenp (length (r_buffer r))
         in Returned (take n (r_buffer r), None) (r\<lparr>r_buffer := drop n (r_buffer r)\<rparr>))
      else
        (case chan_recv (r_ch r) of
           RecvWouldBlock \<Rightarrow> Blocked r
         | RecvClosed \<Rightarrow> Returned ([], Some EOF) r
         | Received data c \<Rightarrow>
             (let n = min lenp (length data);
                  r1 = r\<lparr>r_ch := c\<rparr>
              in Returned (take n data, None)
                   (if n < length data then r1\<lparr>r_buffer := drop n data\<rparr> else r1))))"

text \<open>\<open>write\<close>: a send inside \<open>select\<close> with an empty \<open>default\<close>; it returns nothing.\<close>

definition audioReader_write :: "audioReader \<Rightarrow> bytes \<Rightarrow> (unit, audioReader) outcome" where
  "audioReader_write r data =
     (case chan_send (r_ch r) data of
        Sent c \<Rightarrow> Returned () (r\<lparr>r_ch := c\<rparr>)
      | SendWouldBlock \<Rightarrow> Returned () r
      | SendPanic \<Rightarrow> Panicked r)"

definition audioReader_close :: "audioReader \<Rightarrow> (unit, audioReader) outcome" where
  "audioReader_close r =
     (case chan_close (r_ch r) of
        None \<Rightarrow> Panicked r
      | Some c \<Rightarrow> Returned () (r\<lparr>r_ch := c\<rparr>))"

text \<open>Delivering a list of chunks from the network, in order.\<close>

fun deliver_chunks :: "audioReader \<Rightarrow> bytes list \<Rightarrow> (unit, audioReader) outcome" where
  "deliver_chunks r [] = Returned () r"
| "deliver_chunks r (d # ds) = obind (audioReader_write r d) (\<lambda>u r'. deliver_chunks r' ds)"

text \<open>
  Successive reads with the given destination sizes; the run stops at the first read that
  does not return data (end of stream, or nothing to read yet). The result is the list of
  byte strings returned and whether the end of stream was reached.
\<close>

fun read_sizes :: "audioReader \<Rightarrow> nat list \<Rightarrow> bytes list \<times> bool \<times> audioReader" where
  "read_sizes r [] = ([], False, r)"
| "read_sizes r (n # ns) =
     (case audioReader_Read r n of
        Returned (bs, None) r' \<Rightarrow>
          (case read_sizes r' ns of (out, eof, r'') \<Rightarrow> (bs # out, eof, r''))
      | Returned (bs, Some e) r' \<Rightarrow> ([], True, r')
      | Blocked r' \<Rightarrow> ([], False, r')
      | Panicked r' \<Rightarrow> ([], False, r')
      | Deadlocked r' \<Rightarrow> ([], False, r'))"

text \<open>The bytes a reader still holds: the partly consumed chunk, then the queued chunks.\<close>

definition pending :: "audioReader \<Rightarrow> bytes" where
  "pending r = r_buffer r @ concat (buf (r_ch r))"

subsection \<open>Wire messages\<close>

text \<open>
  The result of \<open>json.Unmarshal\<close> into a \<open>mediaMessage\<close>: a pointer field that is absent
  on the wire is \<open>nil\<close>, here \<open>None\<close>.
\<close>

record mediaFormat =
  Encoding :: string
  SampleRate :: int
  Channels :: int

record startMessage =
  StreamSID :: string
  AccountSID :: string
  CallSID :: string
  Tracks :: "string list"
  MediaFormat :: mediaFormat
  CustomParams :: "(string \<times> string) list"

record mediaPayload =
  Track :: string
  Chunk :: string
  Timestamp :: string
  Payload :: string

record markMessage =
  Name :: string

record stopMessage =
  stop_AccountSID :: string
  stop_CallSID :: string

record dtmfMessage =
  Digit :: string

record mediaMessage =
  Event :: string
  msg_StreamSID :: string
  Start :: "startMessage option"
  Media :: "mediaPayload option"
  Mark :: "markMessage option"
  Stop :: "stopMessage option"
  DTMF :: "dtmfMessage option"

text \<open>
  What one iteration of the receive loop gets from the socket: \<open>ReadMessage\<close> fails, or
  it returns data that \<open>json.Unmarshal\<close> rejects, or data that unmarshals to a message.
\<close>

datatype ws_read = ReadError ws_error | Undecodable | Decoded mediaMessage

subsection \<open>Transport events\<close>

datatype EventType =
    EventConnected
  | EventAudioStarted
  | EventDTMF
  | EventAudioStopped
  | EventDisconnected
  | EventError

record transport_Event =
  Type :: EventType
  Error :: "ws_error option"
  Data :: "string option"

definition event :: "EventType \<Rightarrow> transport_Event" where
  "event t = \<lparr>Type = t, Error = None, Data = None\<rparr>"

subsection \<open>Provider and Connection\<close>

text \<open>
  \<open>mu\<close> is the provider's \<open>sync.RWMutex\<close>: True while it is write-locked. The mutex is
  not reentrant, so \<open>Lock\<close> and \<open>RLock\<close> on a mutex that the running goroutine has
  write-locked never return. \<open>connections\<close> and \<open>listeners\<close> are the two Go maps, as
  association lists with unique keys; a \<open>*Connection\<close> is the address of the connection.
  \<open>dtmfHandler\<close> says whether a handler is registered; a call of the handler is recorded
  in \<open>dtmf_calls\<close> and has no other effect on the provider or the connection.
\<close>

record Provider =
  accountSID :: string
  authToken :: string
  mu :: bool
  connections :: "(string \<times> nat) list"
  listeners :: "(string \<times> nat chan) list"
  dtmfHandler :: bool
  dtmf_calls :: "(nat \<times> string) list"

definition New :: "string \<Rightarrow> string \<Rightarrow> Provider" where
  "New sid token =
     \<lparr>accountSID = sid, authToken = token, mu = False, connections = [], listeners = [],
      dtmfHandler = False, dtmf_calls = []\<rparr>"

definition mu_Lock :: "Provider \<Rightarrow> Provider option" where
  "mu_Lock p = (if mu p then None else Some (p\<lparr>mu := True\<rparr>))"

definition mu_Unlock :: "Provider \<Rightarrow> Provider" where
  "mu_Unlock p = p\<lparr>mu := False\<rparr>"

definition mu_RLock :: "Provider \<Rightarrow> Provider option" where
  "mu_RLock p = (if mu p then None else Some p)"

definition mu_RUnlock :: "Provider \<Rightarrow> Provider" where
  "mu_RUnlock p = p"

text \<open>\<open>Listen\<close> registers a new channel of capacity 10 for the path and returns it.\<close>

definition Listen :: "string \<Rightarrow> Provider \<Rightarrow> (nat chan, Provider) outcome" where
  "Listen addr p =
     (let connCh = make_chan 10 in
      case mu_Lock p of
        None \<Rightarrow> Deadlocked p
      | Some p1 \<Rightarrow>
          Returned connCh
            (mu_Unlock (p1\<lparr>listeners := AList.update addr connCh (listeners p1)\<rparr>)))"

text \<open>
  \<open>wsConn\<close> counts the calls of \<open>wsConn.Close\<close>. \<open>closeOnce\<close> is True once the
  \<open>sync.Once\<close> has run its function. \<open>self\<close> is the address of the connection, the value
  the provider's map stores for it. The connection's own mutex is never held across a call,
  so it is not modelled.
\<close>

record wsConn =
  close_calls :: nat

record Connection =
  conn_id :: string
  streamSID :: string
  callSID :: string
  wsConn :: wsConn
  events :: "transport_Event chan"
  audioIn :: audioWriter
  audioOut :: audioReader
  done_ch :: "unit chan"
  closed :: bool
  closeOnce :: bool
  remoteAddr :: "string option"
  self :: nat

type_synonym state = "Connection \<times> Provider"

text \<open>The connection that \<open>HandleWebSocket\<close> constructs, at address \<open>a\<close>.\<close>

definition newConnection :: "nat \<Rightarrow> Connection" where
  "newConnection a =
     \<lparr>conn_id = [], streamSID = [], callSID = [], wsConn = \<lparr>close_calls = 0\<rparr>,
      events = make_chan 100, audioIn = newAudioWriter, audioOut = newAudioReader,
      done_ch = make_chan 0, closed = False, closeOnce = False, remoteAddr = None,
      self = a\<rparr>"

definition ID :: "Connection \<Rightarrow> string" where
  "ID c = streamSID c"

definition CallSID_of :: "Connection \<Rightarrow> string" where
  "CallSID_of c = callSID c"

subsection \<open>Connection.Close\<close>

text \<open>The function passed to \<open>closeOnce.Do\<close>, statement by statement.\<close>

definition close_body :: "state \<Rightarrow> (unit, state) outcome" where
  "close_body s =
     (case s of (c, p) \<Rightarrow>
        (let c1 = c\<lparr>closed := True\<rparr> in
         case chan_close (done_ch c1) of
           None \<Rightarrow> Panicked (c1, p)
         | Some d \<Rightarrow>
             (let c2 = c1\<lparr>done_ch := d\<rparr> in
              case audioWriter_Close (audioIn c2) of
                Panicked w \<Rightarrow> Panicked (c2\<lparr>audioIn := w\<rparr>, p)
              | Blocked w \<Rightarrow> Blocked (c2\<lparr>audioIn := w\<rparr>, p)
              | Deadlocked w \<Rightarrow> Deadlocked (c2\<lparr>audioIn := w\<rparr>, p)
              | Returned e w \<Rightarrow>
                  (let c3 = c2\<lparr>audioIn := w\<rparr> in
                   case audioReader_close (audioOut c3) of
                     Panicked r \<Rightarrow> Panicked (c3\<lparr>audioOut := r\<rparr>, p)
                   | Blocked r \<Rightarrow> Blocked (c3\<lparr>audioOut := r\<rparr>, p)
                   | Deadlocked r \<Rightarrow> Deadlocked (c3\<lparr>audioOut := r\<rparr>, p)
                   | Returned u r \<Rightarrow>
                       (let c4 = c3\<lparr>audioOut := r\<rparr> in
                        case chan_close (events c4) of
                          None \<Rightarrow> Panicked (c4, p)
                        | Some ev \<Rightarrow>
                            (let c5 = c4\<lparr>events := ev\<rparr>;
                                 c6 = c5\<lparr>wsConn := \<lparr>close_calls = Suc (close_calls (wsConn c5))\<rparr>\<rparr>
                             in case mu_Lock p of
                                  None \<Rightarrow> Deadlocked (c6, p)
                                | Some p1 \<Rightarrow>
                                    Returned ()
                                      (c6, mu_Unlock
                                             (p1\<lparr>connections :=
                                                   AList.delete (streamSID c6) (connections p1)\<rparr>))))))))"

text \<open>
  \<open>closeOnce.Do\<close> runs the function on the first call only; a function that panics
  counts as having run. \<open>Close\<close> always returns \<open>nil\<close>.
\<close>

definition Connection_Close :: "state \<Rightarrow> (io_error option, state) outcome" where
  "Connection_Close s =
     (case s of (c, p) \<Rightarrow>
        if closeOnce c then Returned None (c, p)
        else
          (case close_body (c, p) of
             Returned u (c', p') \<Rightarrow> Returned None (c'\<lparr>closeOnce := True\<rparr>, p')
           | Panicked (c', p') \<Rightarrow> Panicked (c'\<lparr>closeOnce := True\<rparr>, p')
           | Blocked s' \<Rightarrow> Blocked s'
           | Deadlocked s' \<Rightarrow> Deadlocked s'))"

text \<open>\<open>Close\<close> invoked \<open>n\<close> times in a row; the results of the calls are collected.\<close>

fun Close_times :: "nat \<Rightarrow> state \<Rightarrow> (io_error option list, state) outcome" where
  "Close_times 0 s = Returned [] s"
| "Close_times (Suc n) s =
     obind (Connection_Close s)
       (\<lambda>e s'. obind (Close_times n s') (\<lambda>es s''. Returned (e # es) s''))"

subsection \<open>The receive loop\<close>

definition emit :: "transport_Event \<Rightarrow> state \<Rightarrow> (unit, state) outcome" where
  "emit e s =
     (case s of (c, p) \<Rightarrow>
        (case chan_send (events c) e of
           Sent ch \<Rightarrow> Returned () (c\<lparr>events := ch\<rparr>, p)
         | SendWouldBlock \<Rightarrow> Blocked (c, p)
         | SendPanic \<Rightarrow> Panicked (c, p)))"

datatype loop_ctl = Continue | Exit

text \<open>
  The \<open>switch msg.Event\<close> of the loop. \<open>b64\<close> is \<open>base64.StdEncoding.DecodeString\<close>:
  \<open>None\<close> where it returns an error.
\<close>

definition dispatch ::
  "(string \<Rightarrow> bytes option) \<Rightarrow> mediaMessage \<Rightarrow> state \<Rightarrow> (loop_ctl, state) outcome" where
  "dispatch b64 msg s =
     (case s of (c, p) \<Rightarrow>
        if Event msg = ''connected'' then
          obind (emit (event EventConnected) (c, p)) (\<lambda>u s'. Returned Continue s')
        else if Event msg = ''start'' then
          (case Start msg of
             None \<Rightarrow> Returned Continue (c, p)
           | Some st \<Rightarrow>
               (let c1 = c\<lparr>streamSID := StreamSID st, callSID := CallSID st\<rparr> in
                case mu_Lock p of
                  None \<Rightarrow> Deadlocked (c1, p)
                | Some p1 \<Rightarrow>
                    (let p2 = mu_Unlock
                                (p1\<lparr>connections :=
                                      AList.update (streamSID c1) (self c1) (connections p1)\<rparr>)
                     in obind (emit (event EventAudioStarted) (c1, p2))
                          (\<lambda>u s'. Returned Continue s'))))
        else if Event msg = ''media'' then
          (case Media msg of
             None \<Rightarrow> Returned Continue (c, p)
           | Some m \<Rightarrow>
               if Payload m \<noteq> [] then
                 (case b64 (Payload m) of
                    None \<Rightarrow> Returned Continue (c, p)
                  | Some audio \<Rightarrow>
                      (case audioReader_write (audioOut c) audio of
                         Returned u r \<Rightarrow> Returned Continue (c\<lparr>audioOut := r\<rparr>, p)
                       | Panicked r \<Rightarrow> Panicked (c\<lparr>audioOut := r\<rparr>, p)
                       | Blocked r \<Rightarrow> Blocked (c\<lparr>audioOut := r\<rparr>, p)
                       | Deadlocked r \<Rightarrow> Deadlocked (c\<lparr>audioOut := r\<rparr>, p)))
               else Returned Continue (c, p))
        else if Event msg = ''dtmf'' then
          (case DTMF msg of
             None \<Rightarrow> Returned Continue (c, p)
           | Some d \<Rightarrow>
               obind (emit ((event EventDTMF)\<lparr>Data := Some (Digit d)\<rparr>) (c, p))
                 (\<lambda>u s'. case s' of (c1, p1) \<Rightarrow>
                    (case mu_RLock p1 of
                       None \<Rightarrow> Deadlocked (c1, p1)
                     | Some p2 \<Rightarrow>
                         (let handler = dtmfHandler p2;
                              p3 = mu_RUnlock p2
                          in if handler then
                               Returned Continue
                                 (c1, p3\<lparr>dtmf_calls := dtmf_calls p3 @ [(self c1, Digit d)]\<rparr>)
                             else Returned Continue (c1, p3)))))
        else if Event msg = ''stop'' then
          obind (emit (event EventAudioStopped) (c, p))
            (\<lambda>u s'. obind (emit (event EventDisconnected) s') (\<lambda>u s''. Returned Exit s''))
        else if Event msg = ''mark'' then Returned Continue (c, p)
        else Returned Continue (c, p))"

text \<open>One iteration of the loop, after the check of \<open>c.done\<close>.\<close>

fun readLoop_iter ::
  "(string \<Rightarrow> bytes option) \<Rightarrow> ws_read \<Rightarrow> state \<Rightarrow> (loop_ctl, state) outcome" where
  "readLoop_iter b64 (ReadError err) s =
     (if \<not> IsCloseError err [CloseNormalClosure, CloseGoingAway] then
        obind (emit ((event EventError)\<lparr>Error := Some err\<rparr>) s) (\<lambda>u s'. Returned Exit s')
      else Returned Exit s)"
| "readLoop_iter b64 Undecodable s = Returned Continue s"
| "readLoop_iter b64 (Decoded msg) s = dispatch b64 msg s"

text \<open>
  The \<open>for\<close> loop over what the socket delivers. With nothing more to read the loop is
  blocked in \<open>ReadMessage\<close>. The \<open>select\<close> on \<open>c.done\<close> returns when a receive from the
  channel can proceed.
\<close>

fun readLoop_for ::
  "(string \<Rightarrow> bytes option) \<Rightarrow> ws_read list \<Rightarrow> state \<Rightarrow> (unit, state) outcome" where
  "readLoop_for b64 [] (c, p) =
     (case chan_recv (done_ch c) of
        RecvWouldBlock \<Rightarrow> Blocked (c, p)
      | RecvClosed \<Rightarrow> Returned () (c, p)
      | Received u d \<Rightarrow> Returned () (c\<lparr>done_ch := d\<rparr>, p))"
| "readLoop_for b64 (r # rs) (c, p) =
     (case chan_recv (done_ch c) of
        RecvClosed \<Rightarrow> Returned () (c, p)
      | Received u d \<Rightarrow> Returned () (c\<lparr>done_ch := d\<rparr>, p)
      | RecvWouldBlock \<Rightarrow>
          obind (readLoop_iter b64 r (c, p))
            (\<lambda>ctl s'. case ctl of Continue \<Rightarrow> readLoop_for b64 rs s' | Exit \<Rightarrow> Returned () s'))"

text \<open>The loop with its deferred \<open>Close\<close>, which runs on return and on panic.\<close>

definition readLoop ::
  "(string \<Rightarrow> bytes option) \<Rightarrow> ws_read list \<Rightarrow> state \<Rightarrow> (unit, state) outcome" where
  "readLoop b64 reads s =
     (case readLoop_for b64 reads s of
        Returned u s' \<Rightarrow> obind (Connection_Close s') (\<lambda>e s''. Returned () s'')
      | Panicked s' \<Rightarrow> obind (Connection_Close s') (\<lambda>e s''. Panicked s'')
      | Blocked s' \<Rightarrow> Blocked s'
      | Deadlocked s' \<Rightarrow> Deadlocked s')"

text \<open>
  The loop taken up where it waits in \<open>ReadMessage\<close>, the check of \<open>c.done\<close> of the
  current iteration behind it: the read delivers \<open>r\<close>, the iteration is completed, the loop
  goes on with what the socket delivers next, and the deferred \<open>Close\<close> runs at the end.
  Another goroutine may have changed the connection while the loop was waiting.
\<close>

definition readLoop_resumed ::
  "(string \<Rightarrow> bytes option) \<Rightarrow> ws_read \<Rightarrow> ws_read list \<Rightarrow> state \<Rightarrow> (unit, state) outcome" where
  "readLoop_resumed b64 r rs s =
     (case obind (readLoop_iter b64 r s)
             (\<lambda>ctl s'. case ctl of Continue \<Rightarrow> readLoop_for b64 rs s' | Exit \<Rightarrow> Returned () s') of
        Returned u s' \<Rightarrow> obind (Connection_Close s') (\<lambda>e s''. Returned () s'')
      | Panicked s' \<Rightarrow> obind (Connection_Close s') (\<lambda>e s''. Panicked s'')
      | Blocked s' \<Rightarrow> Blocked s'
      | Deadlocked s' \<Rightarrow> Deadlocked s')"

subsection \<open>Provider.Close\<close>

text \<open>
  The heap maps the address of a connection to the connection. \<open>close_conns\<close> is the
  \<open>range\<close> over \<open>p.connections\<close>, in some order of the entries: an entry that has been
  deleted from the map before it is reached is not visited.
\<close>

type_synonym heap = "nat \<rightharpoonup> Connection"

fun close_conns :: "(string \<times> nat) list \<Rightarrow> heap \<times> Provider \<Rightarrow> (unit, heap \<times> Provider) outcome" where
  "close_conns [] hp = Returned () hp"
| "close_conns ((sid, a) # rest) (h, p) =
     (if map_of (connections p) sid \<noteq> Some a then close_conns rest (h, p)
      else
        (case h a of
           None \<Rightarrow> Panicked (h, p)
         | Some c \<Rightarrow>
             (case Connection_Close (c, p) of
                Returned e (c', p') \<Rightarrow> close_conns rest (h(a \<mapsto> c'), p')
              | Panicked (c', p') \<Rightarrow> Panicked (h(a \<mapsto> c'), p')
              | Blocked (c', p') \<Rightarrow> Blocked (h(a \<mapsto> c'), p')
              | Deadlocked (c', p') \<Rightarrow> Deadlocked (h(a \<mapsto> c'), p'))))"

fun close_listeners :: "(string \<times> nat chan) list \<Rightarrow> (string \<times> nat chan) list option" where
  "close_listeners [] = Some []"
| "close_listeners ((addr, ch) # rest) =
     (case chan_close ch of
        None \<Rightarrow> None
      | Some ch' \<Rightarrow>
          (case close_listeners rest of
             None \<Rightarrow> None
           | Some rest' \<Rightarrow> Some ((addr, ch') # rest')))"

text \<open>
  \<open>Provider.Close\<close> holds the write lock from its first statement to its return (the
  \<open>Unlock\<close> is deferred, so it also runs on a panic).
\<close>

definition Provider_Close :: "heap \<times> Provider \<Rightarrow> (io_error option, heap \<times> Provider) outcome" where
  "Provider_Close hp =
     (case hp of (h, p) \<Rightarrow>
        (case mu_Lock p of
           None \<Rightarrow> Deadlocked (h, p)
         | Some p1 \<Rightarrow>
             (case close_conns (connections p1) (h, p1) of
                Panicked (h', p') \<Rightarrow> Panicked (h', mu_Unlock p')
              | Blocked hp' \<Rightarrow> Blocked hp'
              | Deadlocked hp' \<Rightarrow> Deadlocked hp'
              | Returned u (h', p') \<Rightarrow>
                  (case close_listeners (listeners p') of
                     None \<Rightarrow> Panicked (h', mu_Unlock p')
                   | Some closed_chans \<Rightarrow>
                       Returned None (h', mu_Unlock (p'\<lparr>connections := [], listeners := []\<rparr>))))))"

subsection \<open>Auxiliary notions for the properties\<close>

text \<open>The state an outcome carries.\<close>

fun state_of :: "('r, 's) outcome \<Rightarrow> 's" where
  "state_of (Returned r s) = s"
| "state_of (Blocked s) = s"
| "state_of (Panicked s) = s"
| "state_of (Deadlocked s) = s"

text \<open>The identity of a connection, as \<open>ID()\<close> and \<open>CallSID()\<close> return it.\<close>

definition ids :: "state \<Rightarrow> string \<times> string" where
  "ids s = (ID (fst s), CallSID_of (fst s))"

text \<open>
  A bound on the number of reads with a non-empty destination that a reader can serve with
  data: every such read consumes a byte of the retained remainder or takes a chunk from
  the queue.
\<close>

definition unread :: "audioReader \<Rightarrow> nat" where
  "unread r = length (r_buffer r) + length (concat (buf (r_ch r))) + length (buf (r_ch r))"

text \<open>
  A connection on which \<open>Close\<close> has not run: its channels are open, nothing was ever
  sent on \<open>done\<close>, and the writer's channel is closed exactly when the writer is
  (\<open>audioWriter.Close\<close> is the only place that closes it, and it sets the flag).
\<close>

definition live :: "Connection \<Rightarrow> bool" where
  "live c \<longleftrightarrow>
     \<not> closeOnce c \<and> \<not> chan_closed (done_ch c) \<and> buf (done_ch c) = [] \<and>
     \<not> chan_closed (events c) \<and> \<not> chan_closed (r_ch (audioOut c)) \<and>
     w_closed (audioIn c) = chan_closed (w_ch (audioIn c))"

text \<open>
  The inputs that the receive loop skips: data that does not unmarshal, a message whose
  event is none of the six the \<open>switch\<close> knows, and a media message whose payload does not
  decode.
\<close>

fun non_conforming :: "(string \<Rightarrow> bytes option) \<Rightarrow> ws_read \<Rightarrow> bool" where
  "non_conforming b64 (ReadError err) = False"
| "non_conforming b64 Undecodable = True"
| "non_conforming b64 (Decoded msg) =
     (if Event msg = ''media'' then
        (case Media msg of
           None \<Rightarrow> False
         | Some m \<Rightarrow> Payload m \<noteq> [] \<and> b64 (Payload m) = None)
      else Event msg \<notin> set [''connected'', ''start'', ''dtmf'', ''stop'', ''mark''])"

subsection \<open>Concrete inputs\<close>

text \<open>
  \<open>base64.StdEncoding.DecodeString\<close>: the standard alphabet with \<open>=\<close> padding, carriage
  returns and line feeds ignored, any other character or a length that is not a multiple of
  four rejected.
\<close>

definition b64_index :: "char \<Rightarrow> nat option" where
  "b64_index ch =
     (let n = (of_char ch :: nat) in
      if 65 \<le> n \<and> n \<le> 90 then Some (n - 65)
      else if 97 \<le> n \<and> n \<le> 122 then Some (n - 71)
      else if 48 \<le> n \<and> n \<le> 57 then Some (n + 4)
      else if n = 43 then Some 62
      else if n = 47 then Some 63
      else None)"

definition b64_quad :: "char \<Rightarrow> char \<Rightarrow> char \<Rightarrow> char \<Rightarrow> bytes option" where
  "b64_quad a b c d =
     (case (b64_index a, b64_index b, b64_index c, b64_index d) of
        (Some w, Some x, Some y, Some z) \<Rightarrow>
          (let n = ((w * 64 + x) * 64 + y) * 64 + z
           in Some [of_nat (n div 65536), of_nat (n div 256 mod 256), of_nat (n mod 256)])
      | _ \<Rightarrow> None)"

definition b64_last :: "char \<Rightarrow> char \<Rightarrow> char \<Rightarrow> char \<Rightarrow> bytes option" where
  "b64_last a b c d =
     (if c = CHR ''='' \<and> d = CHR ''='' then
        (case (b64_index a, b64_index b) of
           (Some w, Some x) \<Rightarrow> Some [of_nat ((w * 64 + x) div 16)]
         | _ \<Rightarrow> None)
      else if d = CHR ''='' then
        (case (b64_index a, b64_index b, b64_index c) of
           (Some w, Some x, Some y) \<Rightarrow>
             (let n = (w * 64 + x) * 64 + y
              in Some [of_nat (n div 1024), of_nat (n div 4 mod 256)])
         | _ \<Rightarrow> None)
      else b64_quad a b c d)"

fun b64_quads :: "string \<Rightarrow> bytes option" where
  "b64_quads [] = Some []"
| "b64_quads [a, b, c, d] = b64_last a b c d"
| "b64_quads (a # b # c # d # rest) =
     (case b64_quad a b c d of
        None \<Rightarrow> None
      | Some bs \<Rightarrow> (case b64_quads rest of None \<Rightarrow> None | Some cs \<Rightarrow> Some (bs @ cs)))"
| "b64_quads [a] = None"
| "b64_quads [a, b] = None"
| "b64_quads [a, b, c] = None"

definition DecodeString :: "string \<Rightarrow> bytes option" where
  "DecodeString s = b64_quads (filter (\<lambda>ch. ch \<noteq> CHR 0x0D \<and> ch \<noteq> CHR 0x0A) s)"

text \<open>A message with the given event and no nested object, and messages built from it.\<close>

definition envelope :: "string \<Rightarrow> mediaMessage" where
  "envelope ev =
     \<lparr>Event = ev, msg_StreamSID = [], Start = None, Media = None, Mark = None, Stop = None,
      DTMF = None\<rparr>"

definition start_frame :: "string \<Rightarrow> string \<Rightarrow> mediaMessage" where
  "start_frame sid cid =
     (envelope ''start'')
       \<lparr>msg_StreamSID := sid,
        Start := Some \<lparr>StreamSID = sid, AccountSID = ''AC1'', CallSID = cid,
                       Tracks = [''inbound''],
                       MediaFormat = \<lparr>Encoding = ''audio/x-mulaw'', SampleRate = 8000,
                                      Channels = 1\<rparr>,
                       CustomParams = []\<rparr>\<rparr>"

definition media_frame :: "string \<Rightarrow> mediaMessage" where
  "media_frame payload =
     (envelope ''media'')
       \<lparr>Media := Some \<lparr>Track = ''inbound'', Chunk = ''1'', Timestamp = ''0'',
                       Payload = payload\<rparr>\<rparr>"

definition dtmf_frame :: "string \<Rightarrow> mediaMessage" where
  "dtmf_frame digit = (envelope ''dtmf'')\<lparr>DTMF := Some \<lparr>Digit = digit\<rparr>\<rparr>"

definition stop_frame :: mediaMessage where
  "stop_frame =
     (envelope ''stop'')\<lparr>Stop := Some \<lparr>stop_AccountSID = ''AC1'', stop_CallSID = ''CA1''\<rparr>\<rparr>"

text \<open>
  A provider with one listener and one connection, at address 7, that has received a
  connected frame and a start frame and now waits for the next message.
\<close>

definition tracked_system :: "heap \<times> Provider" where
  "tracked_system =
     (case state_of
             (readLoop_for DecodeString
                [Decoded (envelope ''connected''), Decoded (start_frame ''MZ1'' ''CA1'')]
                (newConnection 7, state_of (Listen ''/media-stream'' (New ''AC1'' ''token'')))) of
        (c, p) \<Rightarrow> ([7 \<mapsto> c], p))"

text \<open>\<open>n\<close> distinct one-byte chunks.\<close>

definition numbered_chunks :: "nat \<Rightarrow> bytes list" where
  "numbered_chunks n = map (\<lambda>i. [of_nat i]) [0..<n]"

section \<open>Properties of the audio buffers\<close>

subsection \<open>The writer keeps the newest chunks\<close>

lemma Write_open:
  assumes "\<not> w_closed w" "\<not> chan_closed (w_ch w)" "0 < cap (w_ch w)" "length (buf (w_ch w)) \<le> cap (w_ch w)"
  shows "audioWriter_Write w p =
     Returned (length p, None)
       (w\<lparr>w_ch := (w_ch w)\<lparr>buf := drop (length (buf (w_ch w) @ [p]) - cap (w_ch w)) (buf (w_ch w) @ [p])\<rparr>\<rparr>)"
proof (cases "length (buf (w_ch w)) < cap (w_ch w)")
  case True
  with assms show ?thesis
    by (simp add: audioWriter_Write_def chan_send_def)
next
  case False
  with assms have len: "length (buf (w_ch w)) = cap (w_ch w)" by simp
  with assms obtain x xs where xs: "buf (w_ch w) = x # xs"
    by (cases "buf (w_ch w)") auto
  with assms len show ?thesis
    by (simp add: audioWriter_Write_def chan_send_def chan_recv_def)
qed

lemma slide_step:
  assumes "length xs \<le> C" "0 < C"
  shows "drop (length (drop (length (xs @ [p]) - C) (xs @ [p]) @ ps) - C)
           (drop (length (xs @ [p]) - C) (xs @ [p]) @ ps)
         = drop (length (xs @ p # ps) - C) (xs @ p # ps)"
proof (cases "length xs < C")
  case True
  then show ?thesis by simp
next
  case False
  with assms have len: "length xs = C" by simp
  with assms obtain y ys where xs: "xs = y # ys" by (cases xs) auto
  from len xs have C: "C = Suc (length ys)" by simp
  show ?thesis unfolding xs C by simp
qed

lemma write_chunks_open:
  assumes "\<not> w_closed w" "\<not> chan_closed (w_ch w)" "0 < cap (w_ch w)" "length (buf (w_ch w)) \<le> cap (w_ch w)"
  shows "write_chunks w ps =
     Returned (map (\<lambda>p. (length p, None)) ps)
       (w\<lparr>w_ch := (w_ch w)\<lparr>buf := drop (length (buf (w_ch w) @ ps) - cap (w_ch w)) (buf (w_ch w) @ ps)\<rparr>\<rparr>)"
  using assms
proof (induction ps arbitrary: w)
  case Nil
  then show ?case by simp
next
  case (Cons p ps)
  let ?w' = "w\<lparr>w_ch := (w_ch w)\<lparr>buf := drop (length (buf (w_ch w) @ [p]) - cap (w_ch w)) (buf (w_ch w) @ [p])\<rparr>\<rparr>"
  have W: "audioWriter_Write w p = Returned (length p, None) ?w'"
    using Cons.prems by (rule Write_open)
  have inv: "\<not> w_closed ?w'" "\<not> chan_closed (w_ch ?w')" "0 < cap (w_ch ?w')"
    "length (buf (w_ch ?w')) \<le> cap (w_ch ?w')"
    using Cons.prems by auto
  have IH: "write_chunks ?w' ps = Returned (map (\<lambda>p. (length p, None)) ps)
       (?w'\<lparr>w_ch := (w_ch ?w')\<lparr>buf := drop (length (buf (w_ch ?w') @ ps) - cap (w_ch ?w')) (buf (w_ch ?w') @ ps)\<rparr>\<rparr>)"
    using inv by (rule Cons.IH)
  have eq: "drop (length (buf (w_ch ?w') @ ps) - cap (w_ch ?w')) (buf (w_ch ?w') @ ps)
     = drop (length (buf (w_ch w) @ p # ps) - cap (w_ch w)) (buf (w_ch w) @ p # ps)"
    using slide_step [of "buf (w_ch w)" "cap (w_ch w)" p ps] Cons.prems by simp
  show ?case
    using W IH eq by simp
qed

subsection \<open>The reader keeps the oldest chunks and hands bytes out in order\<close>

lemma write_full:
  assumes "\<not> chan_closed (r_ch r)" "cap (r_ch r) \<le> length (buf (r_ch r))"
  shows "audioReader_write r d = Returned () r"
  using assms by (simp add: audioReader_write_def chan_send_def)

lemma write_room:
  assumes "\<not> chan_closed (r_ch r)" "length (buf (r_ch r)) < cap (r_ch r)"
  shows "audioReader_write r d = Returned () (r\<lparr>r_ch := (r_ch r)\<lparr>buf := buf (r_ch r) @ [d]\<rparr>\<rparr>)"
  using assms by (simp add: audioReader_write_def chan_send_def)

lemma deliver_chunks_open:
  assumes "\<not> chan_closed (r_ch r)"
  shows "deliver_chunks r ds =
     Returned () (r\<lparr>r_ch := (r_ch r)\<lparr>buf := buf (r_ch r) @ take (cap (r_ch r) - length (buf (r_ch r))) ds\<rparr>\<rparr>)"
  using assms
proof (induction ds arbitrary: r)
  case Nil
  then show ?case by simp
next
  case (Cons d ds)
  show ?case
  proof (cases "length (buf (r_ch r)) < cap (r_ch r)")
    case True
    let ?r' = "r\<lparr>r_ch := (r_ch r)\<lparr>buf := buf (r_ch r) @ [d]\<rparr>\<rparr>"
    have "\<not> chan_closed (r_ch ?r')" using Cons.prems by simp
    from Cons.IH [OF this] write_room [OF Cons.prems True, of d] True
    show ?thesis by (simp add: take_Cons' Suc_diff_Suc)
  next
    case False
    then have full: "cap (r_ch r) \<le> length (buf (r_ch r))" by simp
    from Cons.IH [OF Cons.prems] write_full [OF Cons.prems full, of d] full
    show ?thesis by simp
  qed
qed

lemma Read_data:
  assumes "audioReader_Read r n = Returned (bs, None) r'"
  shows "bs @ pending r' = pending r"
  using assms
  by (auto simp: audioReader_Read_def pending_def chan_recv_def Let_def
      split: if_splits list.splits)

lemma Read_err:
  assumes "audioReader_Read r n = Returned (bs, Some e) r'"
  shows "bs = [] \<and> e = EOF \<and> r' = r \<and> r_buffer r = [] \<and> buf (r_ch r) = [] \<and> chan_closed (r_ch r)"
  using assms
  by (auto simp: audioReader_Read_def pending_def chan_recv_def Let_def
      split: if_splits list.splits)

lemma Read_other:
  "audioReader_Read r n = Blocked r' \<Longrightarrow> r' = r \<and> r_buffer r = [] \<and> buf (r_ch r) = [] \<and> \<not> chan_closed (r_ch r)"
  "audioReader_Read r n \<noteq> Panicked r'"
  "audioReader_Read r n \<noteq> Deadlocked r'"
  by (auto simp: audioReader_Read_def pending_def chan_recv_def Let_def
      split: if_splits list.splits)

lemma read_sizes_prefix:
  "read_sizes r ns = (out, eof, r') \<Longrightarrow> concat out @ pending r' = pending r"
proof (induction ns arbitrary: r out eof r')
  case Nil
  then show ?case by simp
next
  case (Cons n ns)
  show ?case
  proof (cases "audioReader_Read r n")
    case (Returned res r1)
    obtain bs e where res: "res = (bs, e)" by (cases res)
    show ?thesis
    proof (cases e)
      case None
      obtain out1 eof1 r2 where rs: "read_sizes r1 ns = (out1, eof1, r2)"
        by (cases "read_sizes r1 ns") auto
      from Cons.prems Returned res None rs
      have "out = bs # out1" "r' = r2" by auto
      moreover from Cons.IH [OF rs] have "concat out1 @ pending r2 = pending r1" .
      moreover from Read_data Returned res None have "bs @ pending r1 = pending r" by simp
      ultimately show ?thesis by simp
    next
      case (Some err)
      with Cons.prems Returned res Read_err [of r n bs err r1]
      show ?thesis by auto
    qed
  next
    case (Blocked r1)
    with Cons.prems Read_other(1) [OF Blocked] show ?thesis by auto
  next
    case (Panicked r1)
    with Read_other(2) show ?thesis by blast
  next
    case (Deadlocked r1)
    with Read_other(3) show ?thesis by blast
  qed
qed

lemma Read_progress:
  assumes "audioReader_Read r n = Returned (bs, None) r'" "0 < n"
  shows "unread r' < unread r"
  using assms
  by (auto simp: audioReader_Read_def unread_def chan_recv_def Let_def
      split: if_splits list.splits)

lemma read_sizes_all:
  "\<forall>n\<in>set ns. 0 < n \<Longrightarrow> unread r \<le> length ns \<Longrightarrow> read_sizes r ns = (out, eof, r')
    \<Longrightarrow> pending r' = []"
proof (induction ns arbitrary: r out eof r')
  case Nil
  then show ?case by (simp add: unread_def pending_def)
next
  case (Cons n ns)
  show ?case
  proof (cases "audioReader_Read r n")
    case (Returned res r1)
    obtain bs e where res: "res = (bs, e)" by (cases res)
    show ?thesis
    proof (cases e)
      case None
      obtain out1 eof1 r2 where rs: "read_sizes r1 ns = (out1, eof1, r2)"
        by (cases "read_sizes r1 ns") auto
      from Cons.prems Returned res None rs have r': "r' = r2" by auto
      from Read_progress [of r n bs r1] Returned res None Cons.prems
      have "unread r1 \<le> length ns" by auto
      with Cons.IH [OF _ this rs] Cons.prems r' show ?thesis by simp
    next
      case (Some err)
      with Cons.prems Returned res Read_err [of r n bs err r1]
      show ?thesis by (auto simp: pending_def)
    qed
  next
    case (Blocked r1)
    with Cons.prems Read_other(1) [OF Blocked] show ?thesis by (auto simp: pending_def)
  next
    case (Panicked r1)
    with Read_other(2) show ?thesis by blast
  next
    case (Deadlocked r1)
    with Read_other(3) show ?thesis by blast
  qed
qed

section \<open>Properties of the connection\<close>

lemma close_body_live:
  assumes "live c" "\<not> mu p"
  shows "close_body (c, p) = Returned ()
     (c\<lparr>closed := True,
        done_ch := (done_ch c)\<lparr>chan_closed := True\<rparr>,
        audioIn := (if w_closed (audioIn c) then audioIn c
                    else (audioIn c)\<lparr>w_closed := True, w_ch := (w_ch (audioIn c))\<lparr>chan_closed := True\<rparr>\<rparr>),
        audioOut := (audioOut c)\<lparr>r_ch := (r_ch (audioOut c))\<lparr>chan_closed := True\<rparr>\<rparr>,
        events := (events c)\<lparr>chan_closed := True\<rparr>,
        wsConn := \<lparr>close_calls = Suc (close_calls (wsConn c))\<rparr>\<rparr>,
      p\<lparr>connections := AList.delete (streamSID c) (connections p)\<rparr>)"
  using assms
  by (auto simp add: live_def close_body_def chan_close_def audioWriter_Close_def
      audioReader_close_def mu_Lock_def mu_Unlock_def Let_def)

lemma Close_live:
  assumes "live c" "\<not> mu p"
  shows "\<exists>c'. Connection_Close (c, p) =
           Returned None (c', p\<lparr>connections := AList.delete (streamSID c) (connections p)\<rparr>) \<and>
         closeOnce c' \<and> closed c' \<and> chan_closed (done_ch c') \<and>
         w_closed (audioIn c') \<and> chan_closed (w_ch (audioIn c')) \<and>
         chan_closed (r_ch (audioOut c')) \<and> chan_closed (events c') \<and>
         close_calls (wsConn c') = Suc (close_calls (wsConn c)) \<and>
         buf (events c') = buf (events c) \<and> streamSID c' = streamSID c \<and>
         callSID c' = callSID c \<and> buf (r_ch (audioOut c')) = buf (r_ch (audioOut c)) \<and>
         r_buffer (audioOut c') = r_buffer (audioOut c) \<and>
         buf (w_ch (audioIn c')) = buf (w_ch (audioIn c))"
proof -
  have "\<not> closeOnce c" using assms by (simp add: live_def)
  moreover have "w_closed (audioIn c) \<longrightarrow> True" by simp
  moreover have "\<not> w_closed (audioIn c) \<or> w_closed (audioIn c)" by simp
  ultimately show ?thesis
    using close_body_live [OF assms] assms(1)
    by (auto simp add: Connection_Close_def live_def)
qed

lemma Close_closed: "closeOnce c \<Longrightarrow> Connection_Close (c, p) = Returned None (c, p)"
  by (simp add: Connection_Close_def)

lemma Close_times_closed:
  "closeOnce c \<Longrightarrow> Close_times n (c, p) = Returned (replicate n None) (c, p)"
  by (induction n) (simp_all add: Close_closed)

lemma emit_room:
  assumes "\<not> chan_closed (events c)" "length (buf (events c)) < cap (events c)"
  shows "emit e (c, p) = Returned () (c\<lparr>events := (events c)\<lparr>buf := buf (events c) @ [e]\<rparr>\<rparr>, p)"
  using assms by (simp add: emit_def chan_send_def)

lemma dispatch_media:
  assumes "Event m = ''media''" "\<not> chan_closed (r_ch (audioOut c))"
  shows "\<exists>r'. dispatch b64 m (c, p) = Returned Continue (c\<lparr>audioOut := r'\<rparr>, p) \<and>
              \<not> chan_closed (r_ch r')"
proof (cases "Media m")
  case None
  with assms have "dispatch b64 m (c, p) = Returned Continue (c\<lparr>audioOut := audioOut c\<rparr>, p)"
    by (simp add: dispatch_def)
  with assms show ?thesis by blast
next
  case (Some pl)
  show ?thesis
  proof (cases "Payload pl \<noteq> [] \<and> b64 (Payload pl) \<noteq> None")
    case False
    with Some assms have "dispatch b64 m (c, p) = Returned Continue (c\<lparr>audioOut := audioOut c\<rparr>, p)"
      by (auto simp add: dispatch_def)
    with assms show ?thesis by blast
  next
    case True
    then obtain audio where a: "b64 (Payload pl) = Some audio" "Payload pl \<noteq> []" by auto
    from assms(2) obtain r' where w: "audioReader_write (audioOut c) audio = Returned () r'"
      and o: "\<not> chan_closed (r_ch r')"
      by (cases "length (buf (r_ch (audioOut c))) < cap (r_ch (audioOut c))")
         (auto simp add: audioReader_write_def chan_send_def)
    from Some a w assms(1) have "dispatch b64 m (c, p) = Returned Continue (c\<lparr>audioOut := r'\<rparr>, p)"
      by (simp add: dispatch_def)
    with o show ?thesis by blast
  qed
qed

lemma done_open: "\<not> chan_closed (done_ch c) \<Longrightarrow> buf (done_ch c) = [] \<Longrightarrow> chan_recv (done_ch c) = RecvWouldBlock"
  by (simp add: chan_recv_def)

lemma loop_media:
  assumes "\<forall>m\<in>set ms. Event m = ''media''"
    "\<not> chan_closed (done_ch c)" "buf (done_ch c) = []" "\<not> chan_closed (r_ch (audioOut c))"
  shows "\<exists>r'. readLoop_for b64 (map Decoded ms @ rest) (c, p) = readLoop_for b64 rest (c\<lparr>audioOut := r'\<rparr>, p) \<and>
              \<not> chan_closed (r_ch r')"
  using assms
proof (induction ms arbitrary: c)
  case Nil
  from Nil.prems(4) show ?case
    by (intro exI [of _ "audioOut c"]) simp
next
  case (Cons m ms)
  from Cons.prems have ev: "Event m = ''media''" by simp
  from dispatch_media [OF ev Cons.prems(4), of b64 p]
  obtain r1 where d: "dispatch b64 m (c, p) = Returned Continue (c\<lparr>audioOut := r1\<rparr>, p)"
    and o: "\<not> chan_closed (r_ch r1)" by blast
  let ?c1 = "c\<lparr>audioOut := r1\<rparr>"
  have "\<exists>r'. readLoop_for b64 (map Decoded ms @ rest) (?c1, p) = readLoop_for b64 rest (?c1\<lparr>audioOut := r'\<rparr>, p) \<and>
              \<not> chan_closed (r_ch r')"
    using Cons.prems o by (intro Cons.IH) simp_all
  then obtain r' where r: "readLoop_for b64 (map Decoded ms @ rest) (?c1, p) = readLoop_for b64 rest (c\<lparr>audioOut := r'\<rparr>, p)"
    and o': "\<not> chan_closed (r_ch r')" by auto
  have "readLoop_for b64 (map Decoded (m # ms) @ rest) (c, p) = readLoop_for b64 (map Decoded ms @ rest) (?c1, p)"
    using d done_open [OF Cons.prems(2,3)] by simp
  with r o' show ?case
    by (intro exI [of _ r']) simp
qed

lemma iter_non_conforming:
  assumes "non_conforming b64 r"
  shows "readLoop_iter b64 r s = Returned Continue s"
proof (cases r)
  case (ReadError err)
  with assms show ?thesis by simp
next
  case Undecodable
  then show ?thesis by simp
next
  case (Decoded msg)
  obtain c p where s: "s = (c, p)" by (cases s)
  show ?thesis
  proof (cases "Event msg = ''media''")
    case True
    with assms Decoded obtain m where "Media msg = Some m" "Payload m \<noteq> []" "b64 (Payload m) = None"
      by (auto split: option.splits)
    with True Decoded s show ?thesis by (simp add: dispatch_def)
  next
    case False
    with assms Decoded have "Event msg \<noteq> ''connected''" "Event msg \<noteq> ''start''"
      "Event msg \<noteq> ''dtmf''" "Event msg \<noteq> ''stop''" "Event msg \<noteq> ''mark''"
      by auto
    with False Decoded s show ?thesis by (simp add: dispatch_def)
  qed
qed

lemma loop_non_conforming:
  "\<forall>r\<in>set bad. non_conforming b64 r \<Longrightarrow> readLoop_for b64 (bad @ rest) s = readLoop_for b64 rest s"
proof (induction bad arbitrary: s)
  case Nil
  then show ?case by simp
next
  case (Cons r bad)
  obtain c p where s: "s = (c, p)" by (cases s)
  from Cons.prems have nc: "non_conforming b64 r" and rest: "\<forall>r\<in>set bad. non_conforming b64 r" by simp_all
  show ?case
  proof (cases "chan_recv (done_ch c)")
    case RecvWouldBlock
    with s iter_non_conforming [OF nc] Cons.IH [OF rest] show ?thesis by simp
  next
    case RecvClosed
    with s show ?thesis by (cases rest) simp_all
  next
    case (Received u d)
    with s show ?thesis by (cases rest) simp_all
  qed
qed

lemma loop_step:
  assumes "live c"
  shows "readLoop_for b64 (r # rs) (c, p) =
     obind (readLoop_iter b64 r (c, p))
       (\<lambda>ctl s'. case ctl of Continue \<Rightarrow> readLoop_for b64 rs s' | Exit \<Rightarrow> Returned () s')"
  using assms by (simp add: live_def chan_recv_def)

lemma loop_end:
  assumes "live c"
  shows "readLoop_for b64 [] (c, p) = Blocked (c, p)"
  using assms by (simp add: live_def chan_recv_def)

lemma live_events:
  assumes "live c"
  shows "live (c\<lparr>events := (events c)\<lparr>buf := es\<rparr>\<rparr>)"
  using assms by (simp add: live_def)

lemma live_ids:
  assumes "live c"
  shows "live (c\<lparr>streamSID := a, callSID := b\<rparr>)"
  using assms by (simp add: live_def)

lemma live_audioOut:
  assumes "live c" "\<not> chan_closed (r_ch r')"
  shows "live (c\<lparr>audioOut := r'\<rparr>)"
  using assms by (simp add: live_def)

lemma dispatch_connected:
  assumes "Event m = ''connected''" "live c" "length (buf (events c)) < cap (events c)"
  shows "dispatch b64 m (c, p) =
     Returned Continue (c\<lparr>events := (events c)\<lparr>buf := buf (events c) @ [event EventConnected]\<rparr>\<rparr>, p)"
  using assms by (simp add: dispatch_def emit_def chan_send_def live_def)

lemma dispatch_start:
  assumes "Event m = ''start''" "Start m = Some st" "live c" "\<not> mu p"
    "length (buf (events c)) < cap (events c)"
  shows "dispatch b64 m (c, p) =
     Returned Continue
       (c\<lparr>streamSID := StreamSID st, callSID := CallSID st,
          events := (events c)\<lparr>buf := buf (events c) @ [event EventAudioStarted]\<rparr>\<rparr>,
        p\<lparr>mu := False,
          connections := AList.update (StreamSID st) (self c) (connections p)\<rparr>)"
  using assms
  by (simp add: dispatch_def emit_def chan_send_def live_def mu_Lock_def mu_Unlock_def)

lemma dispatch_dtmf:
  assumes "Event m = ''dtmf''" "DTMF m = Some d" "live c" "\<not> mu p"
    "length (buf (events c)) < cap (events c)"
  shows "dispatch b64 m (c, p) =
     Returned Continue
       (c\<lparr>events := (events c)\<lparr>buf := buf (events c) @ [(event EventDTMF)\<lparr>Data := Some (Digit d)\<rparr>]\<rparr>\<rparr>,
        if dtmfHandler p then p\<lparr>dtmf_calls := dtmf_calls p @ [(self c, Digit d)]\<rparr> else p)"
  using assms
  by (simp add: dispatch_def emit_def chan_send_def live_def mu_RLock_def mu_RUnlock_def)

lemma dispatch_stop:
  assumes "Event m = ''stop''" "live c" "length (buf (events c)) + 2 \<le> cap (events c)"
  shows "dispatch b64 m (c, p) =
     Returned Exit
       (c\<lparr>events := (events c)\<lparr>buf := buf (events c) @ [event EventAudioStopped, event EventDisconnected]\<rparr>\<rparr>, p)"
  using assms by (simp add: dispatch_def emit_def chan_send_def live_def)

lemma loop_media_live:
  assumes "\<forall>m\<in>set ms. Event m = ''media''" "live c"
  shows "\<exists>c'. readLoop_for b64 (map Decoded ms @ rest) (c, p) = readLoop_for b64 rest (c', p) \<and>
           live c' \<and> events c' = events c \<and> streamSID c' = streamSID c \<and>
           callSID c' = callSID c \<and> self c' = self c \<and> wsConn c' = wsConn c"
proof -
  from assms(2) have "\<not> chan_closed (done_ch c)" "buf (done_ch c) = []"
    "\<not> chan_closed (r_ch (audioOut c))" by (simp_all add: live_def)
  from loop_media [OF assms(1) this, of b64 rest p]
  obtain r' where r: "readLoop_for b64 (map Decoded ms @ rest) (c, p) =
      readLoop_for b64 rest (c\<lparr>audioOut := r'\<rparr>, p)" and o: "\<not> chan_closed (r_ch r')"
    by blast
  from live_audioOut [OF assms(2) o] r show ?thesis
    by (intro exI [of _ "c\<lparr>audioOut := r'\<rparr>"]) simp
qed

lemma readLoop_returned:
  assumes "readLoop_for b64 reads s = Returned () (c1, p1)" "live c1" "\<not> mu p1"
  shows "\<exists>c'. readLoop b64 reads s =
           Returned () (c', p1\<lparr>connections := AList.delete (streamSID c1) (connections p1)\<rparr>) \<and>
         closeOnce c' \<and> closed c' \<and> chan_closed (done_ch c') \<and>
         w_closed (audioIn c') \<and> chan_closed (w_ch (audioIn c')) \<and>
         chan_closed (r_ch (audioOut c')) \<and> chan_closed (events c') \<and>
         close_calls (wsConn c') = Suc (close_calls (wsConn c1)) \<and>
         buf (events c') = buf (events c1) \<and> streamSID c' = streamSID c1 \<and>
         callSID c' = callSID c1"
proof -
  from Close_live [OF assms(2,3)] obtain c' where
    c: "Connection_Close (c1, p1) =
           Returned None (c', p1\<lparr>connections := AList.delete (streamSID c1) (connections p1)\<rparr>)"
    and props: "closeOnce c'" "closed c'" "chan_closed (done_ch c')"
         "w_closed (audioIn c')" "chan_closed (w_ch (audioIn c'))"
         "chan_closed (r_ch (audioOut c'))" "chan_closed (events c')"
         "close_calls (wsConn c') = Suc (close_calls (wsConn c1))"
         "buf (events c') = buf (events c1)" "streamSID c' = streamSID c1"
         "callSID c' = callSID c1"
    by blast
  have "readLoop b64 reads s =
      Returned () (c', p1\<lparr>connections := AList.delete (streamSID c1) (connections p1)\<rparr>)"
    using assms(1) c by (simp add: readLoop_def)
  with props show ?thesis by blast
qed

lemma readLoop_non_conforming:
  assumes "\<forall>r\<in>set bad. non_conforming b64 r"
  shows "readLoop b64 (bad @ rest) s = readLoop b64 rest s"
  using loop_non_conforming [OF assms, of rest s] by (simp add: readLoop_def)

lemma readLoop_stop:
  assumes "Event m = ''stop''" "live c" "\<not> mu p" "length (buf (events c)) + 2 \<le> cap (events c)"
  shows "\<exists>c' p'. readLoop b64 (Decoded m # rest) (c, p) = Returned () (c', p') \<and>
           buf (events c') = buf (events c) @ [event EventAudioStopped, event EventDisconnected] \<and>
           closeOnce c' \<and> chan_closed (events c')"
proof -
  let ?c1 = "c\<lparr>events := (events c)\<lparr>buf := buf (events c) @ [event EventAudioStopped, event EventDisconnected]\<rparr>\<rparr>"
  have l1: "live ?c1" using assms(2) by (simp add: live_def)
  have run: "readLoop_for b64 (Decoded m # rest) (c, p) = Returned () (?c1, p)"
    by (simp only: loop_step [OF assms(2)] readLoop_iter.simps dispatch_stop [OF assms(1,2,4)]
        obind.simps loop_ctl.case)
  from readLoop_returned [OF run l1 assms(3)] show ?thesis by auto
qed

lemma close_body_locked:
  assumes "mu p"
  shows "close_body (c, p) \<noteq> Returned u s"
  using assms
  by (simp add: close_body_def mu_Lock_def Let_def split: option.splits outcome.splits)

lemma Close_locked:
  assumes "mu p" "\<not> closeOnce c"
  shows "Connection_Close (c, p) \<noteq> Returned e s"
proof (cases "close_body (c, p)")
  case (Returned u s')
  with close_body_locked [OF assms(1)] show ?thesis by blast
next
  case (Blocked s')
  with assms(2) show ?thesis by (simp add: Connection_Close_def)
next
  case (Panicked s')
  with assms(2) show ?thesis by (simp add: Connection_Close_def split: prod.splits)
next
  case (Deadlocked s')
  with assms(2) show ?thesis by (simp add: Connection_Close_def)
qed

lemma close_conns_stuck:
  assumes "mu p" "map_of (connections p) sid = Some a" "h a = Some c" "\<not> closeOnce c"
    "(sid, a) \<in> set l"
  shows "close_conns l (h, p) \<noteq> Returned u s"
  using assms(5)
proof (induction l)
  case Nil
  then show ?case by simp
next
  case (Cons x l)
  obtain sid' a' where x: "x = (sid', a')" by (cases x)
  show ?case
  proof (cases "map_of (connections p) sid' \<noteq> Some a'")
    case True
    with assms(2) x Cons.prems have "(sid, a) \<in> set l" by auto
    with Cons.IH True x show ?thesis by simp
  next
    case False
    show ?thesis
    proof (cases "h a'")
      case None
      with False x show ?thesis by simp
    next
      case (Some c'')
      show ?thesis
      proof (cases "closeOnce c''")
        case True
        with Some assms(3,4) have "a' \<noteq> a" by auto
        with x Cons.prems have in_l: "(sid, a) \<in> set l" by auto
        have "h(a' \<mapsto> c'') = h" using Some by (simp add: fun_upd_idem)
        with Cons.IH [OF in_l] False x Some True show ?thesis
          by (simp add: Close_closed)
      next
        case nc: False
        from Close_locked [OF assms(1) nc]
        have "\<And>e s'. Connection_Close (c'', p) \<noteq> Returned e s'" .
        with False x Some show ?thesis
          by (cases "Connection_Close (c'', p)") (auto split: prod.splits)
      qed
    qed
  qed
qed

lemma Close_returned:
  assumes "\<not> closeOnce c" "Connection_Close (c, p) = Returned e (c', p')"
  shows "w_closed (audioIn c') \<and> chan_closed (r_ch (audioOut c')) \<and> chan_closed (events c') \<and>
         closeOnce c' \<and> closed c'"
  using assms
  by (auto simp add: Connection_Close_def close_body_def Let_def chan_close_def
      audioWriter_Close_def audioReader_close_def
      split: option.splits outcome.splits if_splits prod.splits)

lemma write_chunks_closed:
  "w_closed w \<Longrightarrow> write_chunks w ps = Returned (map (\<lambda>p. (0, Some ErrClosedPipe)) ps) w"
  by (induction ps) (simp_all add: audioWriter_Write_def)

lemma Read_closed:
  assumes "chan_closed (r_ch r)"
  shows "\<exists>res r'. audioReader_Read r k = Returned res r' \<and> chan_closed (r_ch r')"
  using assms
  by (auto simp add: audioReader_Read_def chan_recv_def Let_def split: list.splits)

lemma read_sizes_closed:
  "chan_closed (r_ch r) \<Longrightarrow> chan_closed (r_ch (snd (snd (read_sizes r ns))))"
proof (induction ns arbitrary: r)
  case Nil
  then show ?case by simp
next
  case (Cons n ns)
  from Read_closed [OF Cons.prems, of n] obtain res r' where
    rd: "audioReader_Read r n = Returned res r'" and cl: "chan_closed (r_ch r')" by blast
  obtain bs e where res: "res = (bs, e)" by (cases res)
  show ?case
  proof (cases e)
    case None
    with rd res Cons.IH [OF cl] show ?thesis by (auto split: prod.splits)
  next
    case (Some err)
    with rd res cl show ?thesis by simp
  qed
qed

lemma Read_exhausted:
  assumes "chan_closed (r_ch r)" "r_buffer r = []" "buf (r_ch r) = []"
  shows "audioReader_Read r k = Returned ([], Some EOF) r"
  using assms by (simp add: audioReader_Read_def chan_recv_def)

lemma read_sizes_unread:
  "\<forall>n\<in>set ns. 0 < n \<Longrightarrow> unread r \<le> length ns \<Longrightarrow> read_sizes r ns = (out, eof, r')
    \<Longrightarrow> unread r' = 0"
proof (induction ns arbitrary: r out eof r')
  case Nil
  then show ?case by simp
next
  case (Cons n ns)
  show ?case
  proof (cases "audioReader_Read r n")
    case (Returned res r1)
    obtain bs e where res: "res = (bs, e)" by (cases res)
    show ?thesis
    proof (cases e)
      case None
      obtain out1 eof1 r2 where rs: "read_sizes r1 ns = (out1, eof1, r2)"
        by (cases "read_sizes r1 ns") auto
      from Cons.prems Returned res None rs have r': "r' = r2" by auto
      from Read_progress [of r n bs r1] Returned res None Cons.prems
      have "unread r1 \<le> length ns" by auto
      with Cons.IH [OF _ this rs] Cons.prems r' show ?thesis by simp
    next
      case (Some err)
      with Cons.prems Returned res Read_err [of r n bs err r1]
      show ?thesis by (auto simp: unread_def)
    qed
  next
    case (Blocked r1)
    with Cons.prems Read_other(1) [OF Blocked] show ?thesis by (auto simp: unread_def)
  next
    case (Panicked r1)
    with Read_other(2) show ?thesis by blast
  next
    case (Deadlocked r1)
    with Read_other(3) show ?thesis by blast
  qed
qed

lemma ids_emit: "ids (state_of (emit e s)) = ids s"
  by (cases s) (simp add: emit_def ids_def ID_def CallSID_of_def split: send_result.splits)

lemma ids_obind:
  assumes "\<And>r s. ids (state_of (k r s)) = ids s"
  shows "ids (state_of (obind m k)) = ids (state_of m)"
  by (cases m) (simp_all add: assms)

lemma ids_emit_then: "ids (state_of (obind (emit e s) (\<lambda>u s'. Returned x s'))) = ids s"
  by (simp add: ids_obind ids_emit)

lemma ids_dispatch_start:
  assumes "Event m = ''start''"
  shows "ids (state_of (dispatch b64 m (c, p))) =
           (case Start m of Some st \<Rightarrow> (StreamSID st, CallSID st) | None \<Rightarrow> ids (c, p))"
proof (cases "Start m")
  case None
  with assms show ?thesis by (simp add: dispatch_def)
next
  case (Some st)
  show ?thesis
  proof (cases "mu p")
    case True
    with assms Some show ?thesis
      by (simp add: dispatch_def mu_Lock_def ids_def ID_def CallSID_of_def)
  next
    case False
    let ?s = "(c\<lparr>streamSID := StreamSID st, callSID := CallSID st\<rparr>,
               mu_Unlock (p\<lparr>mu := True,
                 connections := AList.update (StreamSID st) (self c) (connections p)\<rparr>))"
    have "dispatch b64 m (c, p) =
        obind (emit (event EventAudioStarted) ?s) (\<lambda>u s'. Returned Continue s')"
      using assms Some False by (simp add: dispatch_def mu_Lock_def)
    then have "ids (state_of (dispatch b64 m (c, p))) = ids ?s"
      by (simp only: ids_emit_then)
    with Some show ?thesis by (simp add: ids_def ID_def CallSID_of_def)
  qed
qed

lemma ids_dtmf_handler:
  "ids (state_of
     (case s' of (c1, p1) \<Rightarrow>
        (case mu_RLock p1 of
           None \<Rightarrow> Deadlocked (c1, p1)
         | Some p2 \<Rightarrow>
             (let handler = dtmfHandler p2;
                  p3 = mu_RUnlock p2
              in if handler then
                   Returned (Continue :: loop_ctl)
                     (c1, p3\<lparr>dtmf_calls := dtmf_calls p3 @ [(self c1, dg)]\<rparr>)
                 else Returned Continue (c1, p3))))) = ids s'"
  by (cases s') (simp add: ids_def Let_def split: option.splits)

lemma ids_dispatch_other:
  assumes "Event m \<noteq> ''start''"
  shows "ids (state_of (dispatch b64 m (c, p))) = ids (c, p)"
proof -
  consider "Event m = ''connected''" | "Event m = ''media''" | "Event m = ''dtmf''"
    | "Event m = ''stop''" | "Event m = ''mark''"
    | "Event m \<noteq> ''connected''" "Event m \<noteq> ''media''" "Event m \<noteq> ''dtmf''"
      "Event m \<noteq> ''stop''" "Event m \<noteq> ''mark''"
    by blast
  then show ?thesis
  proof cases
    case 1
    then have "dispatch b64 m (c, p) =
        obind (emit (event EventConnected) (c, p)) (\<lambda>u s'. Returned Continue s')"
      by (simp add: dispatch_def)
    then show ?thesis by (simp only: ids_emit_then)
  next
    case 2
    then show ?thesis
      by (simp add: dispatch_def audioReader_write_def ids_def ID_def CallSID_of_def
          split: option.splits send_result.splits)
  next
    case 3
    show ?thesis
    proof (cases "DTMF m")
      case None
      with 3 show ?thesis by (simp add: dispatch_def)
    next
      case (Some d)
      have "ids (state_of (dispatch b64 m (c, p))) =
          ids (state_of (emit ((event EventDTMF)\<lparr>Data := Some (Digit d)\<rparr>) (c, p)))"
        using 3 Some by (simp add: dispatch_def) (rule ids_obind, rule ids_dtmf_handler)
      then show ?thesis by (simp only: ids_emit)
    qed
  next
    case 4
    have "ids (state_of (dispatch b64 m (c, p))) =
        ids (state_of (emit (event EventAudioStopped) (c, p)))"
      using 4 by (simp add: dispatch_def) (rule ids_obind, rule ids_emit_then)
    then show ?thesis by (simp only: ids_emit)
  next
    case 5
    then show ?thesis by (simp add: dispatch_def)
  next
    case 6
    with assms show ?thesis by (simp add: dispatch_def)
  qed
qed

lemma ids_Close: "ids (state_of (Connection_Close (c, p))) = ids (c, p)"
  by (auto simp add: Connection_Close_def close_body_def Let_def chan_close_def
      audioWriter_Close_def audioReader_close_def mu_Lock_def ids_def ID_def CallSID_of_def
      split: option.splits outcome.splits if_splits prod.splits)

lemma tracked_system_eval:
  "(case tracked_system of (h, p) \<Rightarrow>
      \<not> mu p \<and> connections p = [(''MZ1'', 7)] \<and>
      listeners p = [(''/media-stream'', make_chan 10)] \<and>
      (case h 7 of
         None \<Rightarrow> False
       | Some c \<Rightarrow> live c \<and> streamSID c = ''MZ1'' \<and>
           buf (events c) = [event EventConnected, event EventAudioStarted]))"
  by (simp add: tracked_system_def Listen_def New_def mu_Lock_def mu_Unlock_def newConnection_def
      make_chan_def newAudioWriter_def newAudioReader_def envelope_def start_frame_def
      dispatch_def emit_def chan_send_def chan_recv_def live_def event_def Let_def)

lemma close_listeners_open:
  "\<forall>x\<in>set ls. \<not> chan_closed (snd x) \<Longrightarrow>
   close_listeners ls = Some (map (\<lambda>x. (fst x, (snd x)\<lparr>chan_closed := True\<rparr>)) ls)"
proof (induction ls)
  case Nil
  then show ?case by simp
next
  case (Cons x ls)
  obtain a ch where x: "x = (a, ch)" by (cases x)
  with Cons show ?case by (simp add: chan_close_def)
qed

lemma Provider_Close_nothing_tracked:
  assumes "\<not> mu p" "connections p = []" "\<forall>x\<in>set (listeners p). \<not> chan_closed (snd x)"
  shows "Provider_Close (h, p) = Returned None (h, p\<lparr>connections := [], listeners := []\<rparr>) \<and>
         Provider_Close (h, p\<lparr>connections := [], listeners := []\<rparr>) =
           Returned None (h, p\<lparr>connections := [], listeners := []\<rparr>)"
  using assms
  by (simp add: Provider_Close_def mu_Lock_def mu_Unlock_def close_listeners_open)

section \<open>The audio buffers under overflow and partial reads\<close>

text \<open>
  Claim C2. On an open writer of capacity \<open>C\<close>, every write returns \<open>(len(p), nil)\<close>: none
  blocks and none fails. After writing the chunks \<open>ps\<close> the queue holds the last \<open>C\<close> of
  the chunks that were queued before followed by \<open>ps\<close>: each write on a full queue removes
  the single oldest chunk and appends the new one. Writing \<open>C + 1\<close> chunks to an empty
  writer leaves chunks \<open>2..C+1\<close> in order, and the first chunk is gone.
\<close>

theorem outbound_overflow_evicts_oldest:
  assumes "\<not> w_closed w" and "\<not> chan_closed (w_ch w)"
    and "cap (w_ch w) = C" and "0 < C" and "length (buf (w_ch w)) \<le> C"
  shows "\<exists>w'. write_chunks w ps = Returned (map (\<lambda>p. (length p, None)) ps) w' \<and>
           buf (w_ch w') = drop (length (buf (w_ch w) @ ps) - C) (buf (w_ch w) @ ps) \<and>
           (buf (w_ch w) = [] \<and> length ps = C + 1 \<longrightarrow>
              buf (w_ch w') = tl ps \<and> (distinct ps \<longrightarrow> hd ps \<notin> set (buf (w_ch w'))))"
proof -
  let ?w' = "w\<lparr>w_ch := (w_ch w)\<lparr>buf := drop (length (buf (w_ch w) @ ps) - cap (w_ch w)) (buf (w_ch w) @ ps)\<rparr>\<rparr>"
  have run: "write_chunks w ps = Returned (map (\<lambda>p. (length p, None)) ps) ?w'"
    using assms by (intro write_chunks_open) simp_all
  have q: "buf (w_ch ?w') = drop (length (buf (w_ch w) @ ps) - C) (buf (w_ch w) @ ps)"
    using assms(3) by simp
  have sp: "buf (w_ch ?w') = tl ps \<and> (distinct ps \<longrightarrow> hd ps \<notin> set (buf (w_ch ?w')))"
    if e: "buf (w_ch w) = []" and l: "length ps = C + 1"
  proof -
    from l obtain x xs where ps: "ps = x # xs" by (cases ps) auto
    with q e l have "buf (w_ch ?w') = xs" by simp
    with ps show ?thesis by auto
  qed
  from run q sp show ?thesis by blast
qed

text \<open>The writer of a new connection, capacity 100, and 101 distinct chunks.\<close>

theorem outbound_overflow_evicts_oldest_witness:
  "\<not> w_closed newAudioWriter \<and> \<not> chan_closed (w_ch newAudioWriter) \<and>
   cap (w_ch newAudioWriter) = 100 \<and> buf (w_ch newAudioWriter) = [] \<and>
   length (numbered_chunks 101) = 100 + 1 \<and> distinct (numbered_chunks 101) \<and>
   (\<exists>w'. write_chunks newAudioWriter (numbered_chunks 101) =
            Returned (map (\<lambda>p. (length p, None)) (numbered_chunks 101)) w' \<and>
          buf (w_ch w') = tl (numbered_chunks 101) \<and>
          hd (numbered_chunks 101) \<notin> set (buf (w_ch w')))"
proof -
  have o: "\<not> w_closed newAudioWriter" "\<not> chan_closed (w_ch newAudioWriter)"
    "cap (w_ch newAudioWriter) = 100" "buf (w_ch newAudioWriter) = []"
    by (simp_all add: newAudioWriter_def make_chan_def)
  have l: "length (numbered_chunks 101) = 100 + 1" by (simp add: numbered_chunks_def)
  have d: "distinct (numbered_chunks 101)"
    by (simp add: numbered_chunks_def upt_rec [of _ "numeral _"])
  from outbound_overflow_evicts_oldest [of newAudioWriter 100 "numbered_chunks 101"] o l d
  show ?thesis by auto
qed

text \<open>
  Claim C3. On a reader of capacity \<open>C\<close> whose channel is open, delivering the chunks \<open>ds\<close>
  always returns. The chunks queued before stay where they are, the delivered chunks are
  appended while there is room and dropped afterwards, and the retained remainder is
  untouched, so the bytes to be read keep their order. Delivering \<open>C + 1\<close> chunks to an
  empty reader leaves chunks \<open>1..C\<close> in order, and the last chunk is gone.
\<close>

theorem inbound_overflow_drops_newest:
  assumes "\<not> chan_closed (r_ch r)" and "cap (r_ch r) = C"
  shows "\<exists>r'. deliver_chunks r ds = Returned () r' \<and>
           buf (r_ch r') = buf (r_ch r) @ take (C - length (buf (r_ch r))) ds \<and>
           r_buffer r' = r_buffer r \<and>
           pending r' = pending r @ concat (take (C - length (buf (r_ch r))) ds) \<and>
           (buf (r_ch r) = [] \<and> length ds = C + 1 \<longrightarrow>
              buf (r_ch r') = butlast ds \<and> (distinct ds \<longrightarrow> last ds \<notin> set (buf (r_ch r'))))"
proof -
  let ?r' = "r\<lparr>r_ch := (r_ch r)\<lparr>buf := buf (r_ch r) @ take (cap (r_ch r) - length (buf (r_ch r))) ds\<rparr>\<rparr>"
  have run: "deliver_chunks r ds = Returned () ?r'"
    using assms(1) by (rule deliver_chunks_open)
  have q: "buf (r_ch ?r') = buf (r_ch r) @ take (C - length (buf (r_ch r))) ds"
    "r_buffer ?r' = r_buffer r"
    "pending ?r' = pending r @ concat (take (C - length (buf (r_ch r))) ds)"
    using assms(2) by (simp_all add: pending_def)
  have sp: "buf (r_ch ?r') = butlast ds \<and> (distinct ds \<longrightarrow> last ds \<notin> set (buf (r_ch ?r')))"
    if e: "buf (r_ch r) = []" and l: "length ds = C + 1"
  proof -
    from l have ne: "ds \<noteq> []" by auto
    from q(1) e l have b: "buf (r_ch ?r') = butlast ds" by (simp add: butlast_conv_take)
    have "distinct ds \<Longrightarrow> last ds \<notin> set (butlast ds)"
      using ne by (metis append_butlast_last_id distinct_butlast not_distinct_conv_prefix
          distinct_append disjoint_iff list.set_intros(1))
    with b show ?thesis by simp
  qed
  from run q sp show ?thesis by blast
qed

text \<open>The reader of a new connection, capacity 100, and 101 distinct chunks.\<close>

theorem inbound_overflow_drops_newest_witness:
  "\<not> chan_closed (r_ch newAudioReader) \<and> cap (r_ch newAudioReader) = 100 \<and>
   buf (r_ch newAudioReader) = [] \<and> length (numbered_chunks 101) = 100 + 1 \<and>
   distinct (numbered_chunks 101) \<and>
   (\<exists>r'. deliver_chunks newAudioReader (numbered_chunks 101) = Returned () r' \<and>
          buf (r_ch r') = butlast (numbered_chunks 101) \<and>
          last (numbered_chunks 101) \<notin> set (buf (r_ch r')))"
proof -
  have o: "\<not> chan_closed (r_ch newAudioReader)" "cap (r_ch newAudioReader) = 100"
    "buf (r_ch newAudioReader) = []"
    by (simp_all add: newAudioReader_def make_chan_def)
  have l: "length (numbered_chunks 101) = 100 + 1" by (simp add: numbered_chunks_def)
  have d: "distinct (numbered_chunks 101)"
    by (simp add: numbered_chunks_def upt_rec [of _ "numeral _"])
  from inbound_overflow_drops_newest [of newAudioReader 100 "numbered_chunks 101"] o l d
  show ?thesis by auto
qed

text \<open>
  Claim C10. For any destination sizes, the bytes returned by successive reads followed by
  the bytes the reader still holds are the bytes it held before: nothing is lost,
  duplicated or reordered. When every destination is non-empty and there are enough reads,
  the bytes returned are all the bytes the reader held. A read whose destination is
  shorter than the next queued chunk returns the start of the chunk and retains the rest,
  ahead of the chunks queued behind it.
\<close>

theorem inbound_reads_byte_exact:
  "concat (fst (read_sizes r ns)) @ pending (snd (snd (read_sizes r ns))) = pending r \<and>
   ((\<forall>n\<in>set ns. 0 < n) \<and> unread r \<le> length ns \<longrightarrow>
      concat (fst (read_sizes r ns)) = pending r) \<and>
   (r_buffer q = [] \<and> buf (r_ch q) = d # ds \<and> k < length d \<longrightarrow>
      audioReader_Read q k =
        Returned (take k d, None) (q\<lparr>r_ch := (r_ch q)\<lparr>buf := ds\<rparr>, r_buffer := drop k d\<rparr>))"
proof -
  obtain out eof r' where rs: "read_sizes r ns = (out, eof, r')"
    by (cases "read_sizes r ns") auto
  have a: "concat (fst (read_sizes r ns)) @ pending (snd (snd (read_sizes r ns))) = pending r"
    using read_sizes_prefix [OF rs] rs by simp
  have b: "concat (fst (read_sizes r ns)) = pending r"
    if "\<forall>n\<in>set ns. 0 < n" "unread r \<le> length ns"
    using read_sizes_all [OF that rs] a rs by simp
  have c: "audioReader_Read q k =
        Returned (take k d, None) (q\<lparr>r_ch := (r_ch q)\<lparr>buf := ds\<rparr>, r_buffer := drop k d\<rparr>)"
    if "r_buffer q = []" "buf (r_ch q) = d # ds" "k < length d"
    using that by (simp add: audioReader_Read_def chan_recv_def Let_def)
  from a b c show ?thesis by blast
qed

text \<open>Two chunks of three and two bytes, read two bytes at a time.\<close>

theorem inbound_reads_byte_exact_witness:
  "unread \<lparr>r_ch = \<lparr>buf = [[1, 2, 3], [4, 5]], cap = 100, chan_closed = False\<rparr>, r_buffer = []\<rparr>
     \<le> length [2, 2, 2, 2, 2, 2, 2 :: nat] \<and>
   concat (fst (read_sizes
      \<lparr>r_ch = \<lparr>buf = [[1, 2, 3], [4, 5]], cap = 100, chan_closed = False\<rparr>, r_buffer = []\<rparr>
      [2, 2, 2, 2, 2, 2, 2])) = [1, 2, 3, 4, 5] \<and>
   audioReader_Read
      \<lparr>r_ch = \<lparr>buf = [[1, 2, 3], [4, 5]], cap = 100, chan_closed = False\<rparr>, r_buffer = []\<rparr> 2 =
     Returned ([1, 2], None)
       \<lparr>r_ch = \<lparr>buf = [[4, 5]], cap = 100, chan_closed = False\<rparr>, r_buffer = [3]\<rparr>"
  using inbound_reads_byte_exact
    [of "\<lparr>r_ch = \<lparr>buf = [[1, 2, 3], [4, 5]], cap = 100, chan_closed = False\<rparr>, r_buffer = []\<rparr>"
        "[2, 2, 2, 2, 2, 2, 2]"
        "\<lparr>r_ch = \<lparr>buf = [[1, 2, 3], [4, 5]], cap = 100, chan_closed = False\<rparr>, r_buffer = []\<rparr>"
        "[1, 2, 3]" "[[4, 5]]" 2]
  by (simp add: unread_def pending_def audioReader_Read_def chan_recv_def)

section \<open>The receive loop\<close>

text \<open>
  Claim C1. On a connection on which \<open>Close\<close> has not run, with the provider's lock free
  and room for five events in the event channel, the frames connected, start (with its
  start object), any number of media frames, dtmf (with its dtmf object) and stop make the
  receive loop return, and what it has appended to the event channel is exactly Connected,
  AudioStarted, DTMF with the digit, AudioStopped, Disconnected, in this order: the media
  frames add no event. The deferred \<open>Close\<close> then closes the channel.
\<close>

theorem receive_loop_event_order:
  assumes "live c" and "\<not> mu p" and "length (buf (events c)) + 5 \<le> cap (events c)"
    and "Event m1 = ''connected''"
    and "Event m2 = ''start''" and "Start m2 = Some st"
    and "\<forall>a\<in>set audio. Event a = ''media''"
    and "Event m3 = ''dtmf''" and "DTMF m3 = Some d"
    and "Event m4 = ''stop''"
  shows "\<exists>c' p'. readLoop b64
             (Decoded m1 # Decoded m2 # map Decoded audio @ [Decoded m3, Decoded m4]) (c, p) =
           Returned () (c', p') \<and>
         buf (events c') = buf (events c) @
           [event EventConnected, event EventAudioStarted,
            (event EventDTMF)\<lparr>Data := Some (Digit d)\<rparr>,
            event EventAudioStopped, event EventDisconnected] \<and>
         chan_closed (events c')"
proof -
  let ?e1 = "event EventConnected" and ?e2 = "event EventAudioStarted"
  let ?e3 = "(event EventDTMF)\<lparr>Data := Some (Digit d)\<rparr>"
  let ?e4 = "event EventAudioStopped" and ?e5 = "event EventDisconnected"
  let ?c1 = "c\<lparr>events := (events c)\<lparr>buf := buf (events c) @ [?e1]\<rparr>\<rparr>"
  let ?c2 = "?c1\<lparr>streamSID := StreamSID st, callSID := CallSID st,
          events := (events ?c1)\<lparr>buf := buf (events ?c1) @ [?e2]\<rparr>\<rparr>"
  let ?p2 = "p\<lparr>mu := False,
          connections := AList.update (StreamSID st) (self ?c1) (connections p)\<rparr>"
  have l1: "live ?c1" using assms(1) by (simp add: live_def)
  have l2: "live ?c2" using assms(1) by (simp add: live_def)
  have d1: "dispatch b64 m1 (c, p) = Returned Continue (?c1, p)"
    using assms by (intro dispatch_connected) simp_all
  have d2: "dispatch b64 m2 (?c1, p) = Returned Continue (?c2, ?p2)"
    using assms l1 by (intro dispatch_start) simp_all
  from loop_media_live [OF assms(7) l2, of b64 "[Decoded m3, Decoded m4]" ?p2]
  obtain c3 where loop3: "readLoop_for b64 (map Decoded audio @ [Decoded m3, Decoded m4]) (?c2, ?p2) =
      readLoop_for b64 [Decoded m3, Decoded m4] (c3, ?p2)"
    and l3: "live c3" and ev3: "events c3 = events ?c2" by blast
  let ?c4 = "c3\<lparr>events := (events c3)\<lparr>buf := buf (events c3) @ [?e3]\<rparr>\<rparr>"
  let ?p4 = "if dtmfHandler ?p2 then ?p2\<lparr>dtmf_calls := dtmf_calls ?p2 @ [(self c3, Digit d)]\<rparr> else ?p2"
  have room3: "length (buf (events c3)) + 3 \<le> cap (events c3)"
    using ev3 assms(3) by simp
  have d3: "dispatch b64 m3 (c3, ?p2) = Returned Continue (?c4, ?p4)"
    using assms(8,9) l3 room3 by (intro dispatch_dtmf) simp_all
  have l4: "live ?c4" using l3 by (simp add: live_def)
  let ?c5 = "?c4\<lparr>events := (events ?c4)\<lparr>buf := buf (events ?c4) @ [?e4, ?e5]\<rparr>\<rparr>"
  have d4: "dispatch b64 m4 (?c4, ?p4) = Returned Exit (?c5, ?p4)"
    using assms(10) l4 room3 by (intro dispatch_stop) simp_all
  have l5: "live ?c5" using l3 by (simp add: live_def)
  have nm: "\<not> mu ?p4" by simp
  have tail: "readLoop_for b64 [Decoded m3, Decoded m4] (c3, ?p2) = Returned () (?c5, ?p4)"
    by (simp only: loop_step [OF l3] loop_step [OF l4] readLoop_iter.simps d3 d4
        obind.simps loop_ctl.case)
  have run: "readLoop_for b64
      (Decoded m1 # Decoded m2 # map Decoded audio @ [Decoded m3, Decoded m4]) (c, p) =
      Returned () (?c5, ?p4)"
    by (simp only: loop_step [OF assms(1)] loop_step [OF l1] readLoop_iter.simps d1 d2
        obind.simps loop_ctl.case loop3 tail)
  from readLoop_returned [OF run l5 nm] obtain c' where
    r: "readLoop b64 (Decoded m1 # Decoded m2 # map Decoded audio @ [Decoded m3, Decoded m4]) (c, p) =
        Returned () (c', ?p4\<lparr>connections := AList.delete (streamSID ?c5) (connections ?p4)\<rparr>)"
    and cl: "chan_closed (events c')" and b: "buf (events c') = buf (events ?c5)"
    by blast
  have "buf (events ?c5) = buf (events c) @ [?e1, ?e2, ?e3, ?e4, ?e5]"
    using ev3 by simp
  with r cl b show ?thesis by (intro exI conjI) (assumption, simp, assumption)
qed

text \<open>A new connection, two media frames with payloads that decode, and the digit 5.\<close>

theorem receive_loop_event_order_witness:
  "live (newConnection 7) \<and> \<not> mu (New ''AC1'' ''token'') \<and>
   (\<exists>c' p'. readLoop DecodeString
        [Decoded (envelope ''connected''), Decoded (start_frame ''MZ1'' ''CA1''),
         Decoded (media_frame ''AQID''), Decoded (media_frame ''BAU=''),
         Decoded (dtmf_frame ''5''), Decoded stop_frame]
        (newConnection 7, New ''AC1'' ''token'') = Returned () (c', p') \<and>
      buf (events c') =
        [event EventConnected, event EventAudioStarted,
         (event EventDTMF)\<lparr>Data := Some ''5''\<rparr>,
         event EventAudioStopped, event EventDisconnected] \<and>
      chan_closed (events c'))"
proof -
  have l: "live (newConnection 7)"
    by (simp add: live_def newConnection_def make_chan_def newAudioWriter_def newAudioReader_def)
  have m: "\<not> mu (New ''AC1'' ''token'')" by (simp add: New_def)
  have room: "length (buf (events (newConnection 7))) + 5 \<le> cap (events (newConnection 7))"
    by (simp add: newConnection_def make_chan_def)
  have st: "Start (start_frame ''MZ1'' ''CA1'') =
      Some \<lparr>StreamSID = ''MZ1'', AccountSID = ''AC1'', CallSID = ''CA1'',
            Tracks = [''inbound''],
            MediaFormat = \<lparr>Encoding = ''audio/x-mulaw'', SampleRate = 8000, Channels = 1\<rparr>,
            CustomParams = []\<rparr>"
    by (simp add: start_frame_def)
  have ev: "Event (envelope ''connected'') = ''connected''"
    "Event (start_frame ''MZ1'' ''CA1'') = ''start''"
    "\<forall>a\<in>set [media_frame ''AQID'', media_frame ''BAU='']. Event a = ''media''"
    "Event (dtmf_frame ''5'') = ''dtmf''" "DTMF (dtmf_frame ''5'') = Some \<lparr>Digit = ''5''\<rparr>"
    "Event stop_frame = ''stop''"
    by (simp_all add: envelope_def start_frame_def media_frame_def dtmf_frame_def stop_frame_def)
  from receive_loop_event_order [OF l m room ev(1,2) st ev(3,4,5,6), of DecodeString] l m
  show ?thesis
    by (simp add: newConnection_def make_chan_def)
qed

text \<open>
  Claim C7. An iteration of the receive loop on data that does not unmarshal, on a message
  with an unknown event, or on a media message whose payload does not decode, continues
  the loop with the connection and the provider unchanged: no event, no other effect. So a
  run of the loop over such inputs followed by further inputs is the run over the further
  inputs alone; with a stop frame next, on a connection on which \<open>Close\<close> has not
  run, the loop appends AudioStopped and Disconnected and returns.
\<close>

theorem malformed_input_skipped:
  assumes "\<forall>r\<in>set bad. non_conforming b64 r"
  shows "(\<forall>r\<in>set bad. readLoop_iter b64 r s = Returned Continue s) \<and>
         readLoop b64 (bad @ rest) s = readLoop b64 rest s \<and>
         (Event m = ''stop'' \<and> live c \<and> \<not> mu p \<and>
          length (buf (events c)) + 2 \<le> cap (events c) \<longrightarrow>
            (\<exists>c' p'. readLoop b64 (bad @ [Decoded m]) (c, p) = Returned () (c', p') \<and>
               buf (events c') =
                 buf (events c) @ [event EventAudioStopped, event EventDisconnected]))"
proof (intro conjI impI ballI)
  fix r assume "r \<in> set bad"
  with assms show "readLoop_iter b64 r s = Returned Continue s"
    by (intro iter_non_conforming) simp
next
  show "readLoop b64 (bad @ rest) s = readLoop b64 rest s"
    using assms by (rule readLoop_non_conforming)
next
  assume a: "Event m = ''stop'' \<and> live c \<and> \<not> mu p \<and>
          length (buf (events c)) + 2 \<le> cap (events c)"
  have "readLoop b64 (bad @ [Decoded m]) (c, p) = readLoop b64 [Decoded m] (c, p)"
    using assms by (rule readLoop_non_conforming)
  moreover from a readLoop_stop [of m c p b64 "[]"]
  obtain c' p' where "readLoop b64 [Decoded m] (c, p) = Returned () (c', p')"
    "buf (events c') = buf (events c) @ [event EventAudioStopped, event EventDisconnected]"
    by blast
  ultimately show "\<exists>c' p'. readLoop b64 (bad @ [Decoded m]) (c, p) = Returned () (c', p') \<and>
               buf (events c') =
                 buf (events c) @ [event EventAudioStopped, event EventDisconnected]"
    by auto
qed

text \<open>Three inputs of the three kinds, then a stop frame, on a new connection.\<close>

theorem malformed_input_skipped_witness:
  "non_conforming DecodeString Undecodable \<and>
   non_conforming DecodeString (Decoded (envelope ''bogus'')) \<and>
   non_conforming DecodeString (Decoded (media_frame ''!!!!'')) \<and>
   live (newConnection 7) \<and> \<not> mu (New ''AC1'' ''token'') \<and>
   (\<exists>c' p'. readLoop DecodeString
        [Undecodable, Decoded (envelope ''bogus''), Decoded (media_frame ''!!!!''),
         Decoded stop_frame]
        (newConnection 7, New ''AC1'' ''token'') = Returned () (c', p') \<and>
      buf (events c') = [event EventAudioStopped, event EventDisconnected])"
proof -
  have nc: "non_conforming DecodeString Undecodable"
    "non_conforming DecodeString (Decoded (envelope ''bogus''))"
    "non_conforming DecodeString (Decoded (media_frame ''!!!!''))"
    by (simp_all add: envelope_def media_frame_def DecodeString_def b64_last_def b64_quad_def
        b64_index_def)
  then have bad: "\<forall>r\<in>set [Undecodable, Decoded (envelope ''bogus''),
      Decoded (media_frame ''!!!!'')]. non_conforming DecodeString r"
    by simp
  have l: "live (newConnection 7)"
    by (simp add: live_def newConnection_def make_chan_def newAudioWriter_def newAudioReader_def)
  have m: "\<not> mu (New ''AC1'' ''token'')" by (simp add: New_def)
  have room: "length (buf (events (newConnection 7))) + 2 \<le> cap (events (newConnection 7))"
    by (simp add: newConnection_def make_chan_def)
  have s: "Event stop_frame = ''stop''" by (simp add: stop_frame_def envelope_def)
  from malformed_input_skipped [OF bad, of "(newConnection 7, New ''AC1'' ''token'')" "[]"
      stop_frame "newConnection 7" "New ''AC1'' ''token''"] s l m room
  have "\<exists>c' p'. readLoop DecodeString
        ([Undecodable, Decoded (envelope ''bogus''), Decoded (media_frame ''!!!!'')] @
         [Decoded stop_frame])
        (newConnection 7, New ''AC1'' ''token'') = Returned () (c', p') \<and>
      buf (events c') = buf (events (newConnection 7)) @
        [event EventAudioStopped, event EventDisconnected]"
    by blast
  with nc l m show ?thesis
    by (simp add: newConnection_def make_chan_def)
qed

text \<open>
  While \<open>Close\<close> has not run and there is room in the event channel, a failing socket
  read makes the loop return and \<open>Close\<close> run; the loop appends one Error event that
  carries the error unless the error is a close error with code 1000 (normal closure) or
  1001 (going away), and then it appends nothing. A stop frame appends AudioStopped and
  Disconnected and no Error event.
\<close>

lemma read_failure_while_open:
  assumes "live c" and "\<not> mu p" and "length (buf (events c)) + 2 \<le> cap (events c)"
  shows "(\<exists>c' p'. readLoop b64 (ReadError err # rest) (c, p) = Returned () (c', p') \<and>
            buf (events c') = buf (events c) @
              (if IsCloseError err [CloseNormalClosure, CloseGoingAway] then []
               else [(event EventError)\<lparr>Error := Some err\<rparr>]) \<and>
            closeOnce c' \<and> chan_closed (events c')) \<and>
         (IsCloseError err [CloseNormalClosure, CloseGoingAway] \<longleftrightarrow>
            err = CloseError 1000 \<or> err = CloseError 1001) \<and>
         (Event m = ''stop'' \<longrightarrow>
            (\<exists>c' p'. readLoop b64 (Decoded m # rest) (c, p) = Returned () (c', p') \<and>
               buf (events c') =
                 buf (events c) @ [event EventAudioStopped, event EventDisconnected] \<and>
               closeOnce c' \<and> chan_closed (events c')))"
proof (intro conjI impI)
  show "\<exists>c' p'. readLoop b64 (ReadError err # rest) (c, p) = Returned () (c', p') \<and>
            buf (events c') = buf (events c) @
              (if IsCloseError err [CloseNormalClosure, CloseGoingAway] then []
               else [(event EventError)\<lparr>Error := Some err\<rparr>]) \<and>
            closeOnce c' \<and> chan_closed (events c')"
  proof (cases "IsCloseError err [CloseNormalClosure, CloseGoingAway]")
    case True
    have run: "readLoop_for b64 (ReadError err # rest) (c, p) = Returned () (c, p)"
      using True by (subst loop_step [OF assms(1)]) simp
    from readLoop_returned [OF run assms(1,2)] True show ?thesis by auto
  next
    case False
    let ?c1 = "c\<lparr>events := (events c)\<lparr>buf := buf (events c) @ [(event EventError)\<lparr>Error := Some err\<rparr>]\<rparr>\<rparr>"
    have l1: "live ?c1" using assms(1) by (simp add: live_def)
    have e: "emit ((event EventError)\<lparr>Error := Some err\<rparr>) (c, p) = Returned () (?c1, p)"
      using assms by (intro emit_room) (simp_all add: live_def)
    have run: "readLoop_for b64 (ReadError err # rest) (c, p) = Returned () (?c1, p)"
      using False e by (subst loop_step [OF assms(1)]) simp
    from readLoop_returned [OF run l1 assms(2)] False show ?thesis by auto
  qed
next
  show "IsCloseError err [CloseNormalClosure, CloseGoingAway] \<longleftrightarrow>
            err = CloseError 1000 \<or> err = CloseError 1001"
    by (cases err) (auto simp add: CloseNormalClosure_def CloseGoingAway_def)
next
  assume "Event m = ''stop''"
  from readLoop_stop [OF this assms]
  show "\<exists>c' p'. readLoop b64 (Decoded m # rest) (c, p) = Returned () (c', p') \<and>
               buf (events c') =
                 buf (events c) @ [event EventAudioStopped, event EventDisconnected] \<and>
               closeOnce c' \<and> chan_closed (events c')" .
qed

text \<open>Close code 1006, close code 1000 and a stop frame, each on a new connection.\<close>

lemma read_failure_while_open_example:
  "live (newConnection 7) \<and> \<not> mu (New ''AC1'' ''token'') \<and>
   (\<exists>c' p'. readLoop DecodeString [ReadError (CloseError 1006)]
        (newConnection 7, New ''AC1'' ''token'') = Returned () (c', p') \<and>
      buf (events c') = [(event EventError)\<lparr>Error := Some (CloseError 1006)\<rparr>]) \<and>
   (\<exists>c' p'. readLoop DecodeString [ReadError (CloseError 1000)]
        (newConnection 7, New ''AC1'' ''token'') = Returned () (c', p') \<and>
      buf (events c') = []) \<and>
   (\<exists>c' p'. readLoop DecodeString [Decoded stop_frame]
        (newConnection 7, New ''AC1'' ''token'') = Returned () (c', p') \<and>
      buf (events c') = [event EventAudioStopped, event EventDisconnected])"
proof -
  have l: "live (newConnection 7)"
    by (simp add: live_def newConnection_def make_chan_def newAudioWriter_def newAudioReader_def)
  have m: "\<not> mu (New ''AC1'' ''token'')" by (simp add: New_def)
  have room: "length (buf (events (newConnection 7))) + 2 \<le> cap (events (newConnection 7))"
    by (simp add: newConnection_def make_chan_def)
  have s: "Event stop_frame = ''stop''" by (simp add: stop_frame_def envelope_def)
  have e: "buf (events (newConnection 7)) = []" by (simp add: newConnection_def make_chan_def)
  from read_failure_while_open [OF l m room, of DecodeString "CloseError 1006" "[]" stop_frame]
  have a: "\<exists>c' p'. readLoop DecodeString [ReadError (CloseError 1006)]
        (newConnection 7, New ''AC1'' ''token'') = Returned () (c', p') \<and>
      buf (events c') = [(event EventError)\<lparr>Error := Some (CloseError 1006)\<rparr>]"
    by (simp add: e CloseNormalClosure_def CloseGoingAway_def) blast
  from read_failure_while_open [OF l m room, of DecodeString "CloseError 1000" "[]" stop_frame]
  have b: "\<exists>c' p'. readLoop DecodeString [ReadError (CloseError 1000)]
        (newConnection 7, New ''AC1'' ''token'') = Returned () (c', p') \<and>
      buf (events c') = []"
    by (simp add: e CloseNormalClosure_def CloseGoingAway_def) blast
  from read_failure_while_open [OF l m room, of DecodeString "CloseError 1000" "[]" stop_frame] s
  have c: "\<exists>c' p'. readLoop DecodeString [Decoded stop_frame]
        (newConnection 7, New ''AC1'' ''token'') = Returned () (c', p') \<and>
      buf (events c') = [event EventAudioStopped, event EventDisconnected]"
    by (simp add: e) blast
  from l m a b c show ?thesis by blast
qed

text \<open>
  Claim C8 fails on the code. \<open>Connection.Close\<close> closes the event channel and then the
  socket. When another goroutine calls it while the receive loop waits in \<open>ReadMessage\<close>,
  the read fails with an error that is not a normal closure, and the loop sends the Error
  event on the closed channel: the send panics, no Error event is emitted, and the
  deferred \<open>Close\<close> has nothing left to do.
\<close>

theorem read_failure_after_Close_panics:
  assumes "live c" and "\<not> mu p"
    and "\<not> IsCloseError err [CloseNormalClosure, CloseGoingAway]"
  shows "\<exists>c' p'. Connection_Close (c, p) = Returned None (c', p') \<and>
           readLoop_iter b64 (ReadError err) (c', p') = Panicked (c', p') \<and>
           readLoop_resumed b64 (ReadError err) rest (c', p') = Panicked (c', p') \<and>
           buf (events c') = buf (events c)"
proof -
  from Close_live [OF assms(1,2)] obtain c' p' where
    cl: "Connection_Close (c, p) = Returned None (c', p')"
    and once: "closeOnce c'" and ev: "chan_closed (events c')"
    and same: "buf (events c') = buf (events c)"
    by blast
  have it: "readLoop_iter b64 (ReadError err) (c', p') = Panicked (c', p')"
    using assms(3) ev by (simp add: emit_def chan_send_def)
  have "readLoop_resumed b64 (ReadError err) rest (c', p') = Panicked (c', p')"
    using it Close_closed [OF once, of p'] by (simp add: readLoop_resumed_def)
  with cl it same show ?thesis by blast
qed

text \<open>
  A new connection closed by the application, and the error of a read on a closed socket.
\<close>

theorem read_failure_after_Close_panics_witness:
  "live (newConnection 7) \<and> \<not> mu (New ''AC1'' ''token'') \<and>
   \<not> IsCloseError (OtherError ''use of closed network connection'')
        [CloseNormalClosure, CloseGoingAway] \<and>
   (\<exists>c' p'. Connection_Close (newConnection 7, New ''AC1'' ''token'') =
        Returned None (c', p') \<and>
      readLoop_resumed DecodeString
        (ReadError (OtherError ''use of closed network connection'')) [] (c', p') =
        Panicked (c', p') \<and>
      buf (events c') = [])"
proof -
  have l: "live (newConnection 7)"
    by (simp add: live_def newConnection_def make_chan_def newAudioWriter_def newAudioReader_def)
  have m: "\<not> mu (New ''AC1'' ''token'')" by (simp add: New_def)
  have n: "\<not> IsCloseError (OtherError ''use of closed network connection'')
        [CloseNormalClosure, CloseGoingAway]"
    by simp
  have e: "buf (events (newConnection 7)) = []" by (simp add: newConnection_def make_chan_def)
  from read_failure_after_Close_panics [OF l m n, of DecodeString "[]"] e
  have "\<exists>c' p'. Connection_Close (newConnection 7, New ''AC1'' ''token'') =
        Returned None (c', p') \<and>
      readLoop_resumed DecodeString
        (ReadError (OtherError ''use of closed network connection'')) [] (c', p') =
        Panicked (c', p') \<and>
      buf (events c') = []"
    by auto
  with l m n show ?thesis by blast
qed

text \<open>
  Claim C4, as stated, fails: after a start frame with stream id MZ1 and call id CA1, a
  second start frame with MZ2 and CA2 leaves the connection with MZ2 and CA2.
\<close>

theorem second_start_rebinds_identity:
  "ids (state_of (readLoop_for DecodeString
          [Decoded (start_frame ''MZ1'' ''CA1'')] (newConnection 7, New ''AC1'' ''token''))) =
     (''MZ1'', ''CA1'') \<and>
   ids (state_of (readLoop_for DecodeString
          [Decoded (start_frame ''MZ1'' ''CA1''), Decoded (start_frame ''MZ2'' ''CA2'')]
          (newConnection 7, New ''AC1'' ''token''))) = (''MZ2'', ''CA2'') \<and>
   ids (state_of (readLoop_for DecodeString
          [Decoded (start_frame ''MZ1'' ''CA1''), Decoded (start_frame ''MZ2'' ''CA2'')]
          (newConnection 7, New ''AC1'' ''token''))) \<noteq> (''MZ1'', ''CA1'')"
  by (simp add: ids_def ID_def CallSID_of_def newConnection_def New_def start_frame_def
      envelope_def dispatch_def emit_def chan_send_def chan_recv_def mu_Lock_def mu_Unlock_def
      make_chan_def newAudioWriter_def newAudioReader_def event_def)

text \<open>
  Claim C4, amended. A new connection has an empty stream id and an empty call id. One
  iteration of the receive loop changes them only for a start frame that carries a start
  object, and then sets both to the values of that frame, whatever they were before; every
  other frame, a read failure and \<open>Close\<close> leave them as they are.
\<close>

theorem identity_rebound_by_every_start:
  "ids (newConnection a, p0) = ([], []) \<and>
   ids (state_of (readLoop_iter b64 r (c, p))) =
     (case r of
        ReadError err \<Rightarrow> ids (c, p)
      | Undecodable \<Rightarrow> ids (c, p)
      | Decoded m \<Rightarrow>
          if Event m = ''start'' then
            (case Start m of Some st \<Rightarrow> (StreamSID st, CallSID st) | None \<Rightarrow> ids (c, p))
          else ids (c, p)) \<and>
   ids (state_of (Connection_Close (c, p))) = ids (c, p)"
proof (intro conjI)
  show "ids (newConnection a, p0) = ([], [])"
    by (simp add: ids_def ID_def CallSID_of_def newConnection_def)
next
  show "ids (state_of (readLoop_iter b64 r (c, p))) =
     (case r of
        ReadError err \<Rightarrow> ids (c, p)
      | Undecodable \<Rightarrow> ids (c, p)
      | Decoded m \<Rightarrow>
          if Event m = ''start'' then
            (case Start m of Some st \<Rightarrow> (StreamSID st, CallSID st) | None \<Rightarrow> ids (c, p))
          else ids (c, p))"
  proof (cases r)
    case (ReadError err)
    then show ?thesis by (simp add: ids_emit_then)
  next
    case Undecodable
    then show ?thesis by simp
  next
    case (Decoded m)
    then show ?thesis
      by (simp add: ids_dispatch_start ids_dispatch_other)
  qed
next
  show "ids (state_of (Connection_Close (c, p))) = ids (c, p)"
    by (rule ids_Close)
qed

text \<open>A connection bound to MZ1 and CA1 that receives a start frame for MZ2 and CA2.\<close>

theorem identity_rebound_by_every_start_witness:
  "ids (state_of (readLoop_iter DecodeString (Decoded (start_frame ''MZ2'' ''CA2''))
          ((newConnection 7)\<lparr>streamSID := ''MZ1'', callSID := ''CA1''\<rparr>,
           New ''AC1'' ''token''))) = (''MZ2'', ''CA2'')"
  using identity_rebound_by_every_start
    [of 7 "New ''AC1'' ''token''" DecodeString "Decoded (start_frame ''MZ2'' ''CA2'')"
        "(newConnection 7)\<lparr>streamSID := ''MZ1'', callSID := ''CA1''\<rparr>" "New ''AC1'' ''token''"]
  by (simp add: start_frame_def envelope_def)


section \<open>Closing a connection\<close>

text \<open>
  Claim C5. On a connection on which \<open>Close\<close> has not run, called with the provider's
  lock free, \<open>Close\<close> returns \<open>nil\<close>; it sets the closed flag, closes \<open>done\<close>, the
  writer, the reader's channel and the event channel, calls \<open>Close\<close> on the socket once and
  removes the entry of the stream id from the provider's map. Any number of further calls
  return \<open>nil\<close> and change nothing: after \<open>n + 1\<close> calls the state is the state after the
  first one, and no call panics.
\<close>

theorem Close_idempotent:
  assumes "live c" and "\<not> mu p"
  shows "\<exists>c' p'. Connection_Close (c, p) = Returned None (c', p') \<and>
           Close_times (Suc n) (c, p) = Returned (replicate (Suc n) None) (c', p') \<and>
           Connection_Close (c', p') = Returned None (c', p') \<and>
           closed c' \<and> closeOnce c' \<and>
           close_calls (wsConn c') = Suc (close_calls (wsConn c)) \<and>
           chan_closed (done_ch c') \<and> chan_closed (events c') \<and>
           w_closed (audioIn c') \<and> chan_closed (w_ch (audioIn c')) \<and>
           chan_closed (r_ch (audioOut c')) \<and>
           connections p' = AList.delete (streamSID c) (connections p) \<and>
           map_of (connections p') (streamSID c) = None \<and> \<not> mu p'"
proof -
  let ?p' = "p\<lparr>connections := AList.delete (streamSID c) (connections p)\<rparr>"
  from Close_live [OF assms] obtain c' where
    c: "Connection_Close (c, p) = Returned None (c', ?p')"
    and props: "closeOnce c'" "closed c'" "chan_closed (done_ch c')"
         "w_closed (audioIn c')" "chan_closed (w_ch (audioIn c'))"
         "chan_closed (r_ch (audioOut c'))" "chan_closed (events c')"
         "close_calls (wsConn c') = Suc (close_calls (wsConn c))"
    by blast
  have again: "Connection_Close (c', ?p') = Returned None (c', ?p')"
    using props(1) by (rule Close_closed)
  have times: "Close_times (Suc n) (c, p) = Returned (replicate (Suc n) None) (c', ?p')"
    using c Close_times_closed [OF props(1), of n ?p'] by simp
  have reg: "connections ?p' = AList.delete (streamSID c) (connections p)"
    "map_of (connections ?p') (streamSID c) = None" "\<not> mu ?p'"
    using assms(2) by (simp_all add: delete_conv')
  from c times again props reg show ?thesis by blast
qed

text \<open>A registered connection closed three times.\<close>

theorem Close_idempotent_witness:
  "live ((newConnection 7)\<lparr>streamSID := ''MZ1'', callSID := ''CA1''\<rparr>) \<and>
   \<not> mu ((New ''AC1'' ''token'')\<lparr>connections := [(''MZ1'', 7)]\<rparr>) \<and>
   (\<exists>c' p'. Close_times (Suc 2)
        ((newConnection 7)\<lparr>streamSID := ''MZ1'', callSID := ''CA1''\<rparr>,
         (New ''AC1'' ''token'')\<lparr>connections := [(''MZ1'', 7)]\<rparr>) =
        Returned [None, None, None] (c', p') \<and>
      close_calls (wsConn c') = 1 \<and> chan_closed (events c') \<and> connections p' = [])"
proof -
  let ?c = "(newConnection 7)\<lparr>streamSID := ''MZ1'', callSID := ''CA1''\<rparr>"
  let ?p = "(New ''AC1'' ''token'')\<lparr>connections := [(''MZ1'', 7)]\<rparr>"
  have l: "live ?c"
    by (simp add: live_def newConnection_def make_chan_def newAudioWriter_def newAudioReader_def)
  have m: "\<not> mu ?p" by (simp add: New_def)
  from Close_idempotent [OF l m, of 2] l m show ?thesis
    by (auto simp add: newConnection_def New_def numeral_3_eq_3)
qed

text \<open>
  Claim C6. After \<open>Close\<close> has run on a connection and returned, every write to the
  writer returns \<open>(0, io.ErrClosedPipe)\<close> and leaves the writer as it is. A read from the
  reader never blocks, whatever has been read before; it returns \<open>(0, io.EOF)\<close> when the
  retained remainder and the queue are empty, which is the case after enough reads with
  non-empty destinations.
\<close>

theorem use_after_close:
  assumes "\<not> closeOnce c" and "Connection_Close (c, p) = Returned e (c', p')"
  shows "audioWriter_Write (audioIn c') data = Returned (0, Some ErrClosedPipe) (audioIn c') \<and>
         write_chunks (audioIn c') ps =
           Returned (map (\<lambda>p. (0, Some ErrClosedPipe)) ps) (audioIn c') \<and>
         (\<exists>res r'. audioReader_Read (snd (snd (read_sizes (audioOut c') ns))) k =
            Returned res r') \<and>
         (r_buffer (audioOut c') = [] \<and> buf (r_ch (audioOut c')) = [] \<longrightarrow>
            audioReader_Read (audioOut c') k = Returned ([], Some EOF) (audioOut c')) \<and>
         ((\<forall>n\<in>set ns. 0 < n) \<and> unread (audioOut c') \<le> length ns \<longrightarrow>
            audioReader_Read (snd (snd (read_sizes (audioOut c') ns))) k =
              Returned ([], Some EOF) (snd (snd (read_sizes (audioOut c') ns))))"
proof -
  from Close_returned [OF assms] have w: "w_closed (audioIn c')"
    and r: "chan_closed (r_ch (audioOut c'))" by simp_all
  let ?r = "snd (snd (read_sizes (audioOut c') ns))"
  have rc: "chan_closed (r_ch ?r)" using r by (rule read_sizes_closed)
  have a: "audioWriter_Write (audioIn c') data = Returned (0, Some ErrClosedPipe) (audioIn c')"
    using w by (simp add: audioWriter_Write_def)
  have b: "write_chunks (audioIn c') ps =
           Returned (map (\<lambda>p. (0, Some ErrClosedPipe)) ps) (audioIn c')"
    using w by (rule write_chunks_closed)
  have c: "\<exists>res r'. audioReader_Read ?r k = Returned res r'"
    using Read_closed [OF rc, of k] by blast
  have d: "audioReader_Read (audioOut c') k = Returned ([], Some EOF) (audioOut c')"
    if "r_buffer (audioOut c') = []" "buf (r_ch (audioOut c')) = []"
    using r that by (rule Read_exhausted)
  have f: "audioReader_Read ?r k = Returned ([], Some EOF) ?r"
    if h: "\<forall>n\<in>set ns. 0 < n" "unread (audioOut c') \<le> length ns"
  proof -
    obtain out eof r' where rs: "read_sizes (audioOut c') ns = (out, eof, r')"
      by (cases "read_sizes (audioOut c') ns") auto
    from read_sizes_unread [OF h rs] rs have "unread ?r = 0" by simp
    then have "r_buffer ?r = []" "buf (r_ch ?r) = []" by (simp_all add: unread_def)
    with rc show ?thesis by (intro Read_exhausted)
  qed
  from a b c d f show ?thesis by blast
qed

text \<open>A connection closed with one chunk of three bytes still queued for reading.\<close>

theorem use_after_close_witness:
  "\<exists>c' p'. Connection_Close
       ((newConnection 7)\<lparr>audioOut :=
           \<lparr>r_ch = \<lparr>buf = [[1, 2, 3]], cap = 100, chan_closed = False\<rparr>, r_buffer = []\<rparr>\<rparr>,
        New ''AC1'' ''token'') = Returned None (c', p') \<and>
     audioWriter_Write (audioIn c') [9] = Returned (0, Some ErrClosedPipe) (audioIn c') \<and>
     fst (read_sizes (audioOut c') [2, 2, 2, 2]) = [[1, 2], [3]] \<and>
     audioReader_Read (snd (snd (read_sizes (audioOut c') [2, 2, 2, 2]))) 2 =
       Returned ([], Some EOF) (snd (snd (read_sizes (audioOut c') [2, 2, 2, 2])))"
proof -
  let ?c = "(newConnection 7)\<lparr>audioOut :=
           \<lparr>r_ch = \<lparr>buf = [[1, 2, 3]], cap = 100, chan_closed = False\<rparr>, r_buffer = []\<rparr>\<rparr>"
  let ?p = "New ''AC1'' ''token''"
  have l: "live ?c"
    by (simp add: live_def newConnection_def make_chan_def newAudioWriter_def)
  have m: "\<not> mu ?p" by (simp add: New_def)
  from Close_live [OF l m] obtain c' p' where
    cl: "Connection_Close (?c, ?p) = Returned None (c', p')"
    and q: "buf (r_ch (audioOut c')) = [[1, 2, 3]]" "r_buffer (audioOut c') = []"
    by auto
  have nc: "\<not> closeOnce ?c" by (simp add: newConnection_def)
  have u: "unread (audioOut c') \<le> length [2, 2, 2, 2 :: nat]"
    using q by (simp add: unread_def)
  have pos: "\<forall>n\<in>set [2, 2, 2, 2 :: nat]. 0 < n" by simp
  have rd: "fst (read_sizes (audioOut c') [2, 2, 2, 2]) = [[1, 2], [3]]"
    using q by (simp add: audioReader_Read_def chan_recv_def split: prod.splits)
  from use_after_close [OF nc cl, of "[9]" "[]" "[2, 2, 2, 2]" 2] pos u
  have "audioWriter_Write (audioIn c') [9] = Returned (0, Some ErrClosedPipe) (audioIn c')"
    "audioReader_Read (snd (snd (read_sizes (audioOut c') [2, 2, 2, 2]))) 2 =
       Returned ([], Some EOF) (snd (snd (read_sizes (audioOut c') [2, 2, 2, 2])))"
    by blast+
  with cl rd show ?thesis by blast
qed


section \<open>Closing the provider\<close>

text \<open>
  Claim C9 fails on the code. \<open>Provider.Close\<close> takes the provider's write lock and,
  holding it, calls \<open>Close\<close> on the tracked connections; \<open>Connection.Close\<close> takes the same
  lock to remove its entry. So whenever the map tracks a connection on which \<open>Close\<close> has
  not run yet, \<open>Provider.Close\<close> does not return.
\<close>

theorem Provider_Close_never_returns:
  assumes "\<not> mu p" and "map_of (connections p) sid = Some a" and "h a = Some c"
    and "\<not> closeOnce c"
  shows "Provider_Close (h, p) \<noteq> Returned e s"
proof -
  let ?p1 = "p\<lparr>mu := True\<rparr>"
  from assms(2) have mem: "(sid, a) \<in> set (connections ?p1)"
    by (simp add: map_of_SomeD)
  have "\<And>u s'. close_conns (connections ?p1) (h, ?p1) \<noteq> Returned u s'"
    using assms mem by (intro close_conns_stuck [where sid = sid and a = a and c = c]) simp_all
  then show ?thesis
    using assms(1)
    by (cases "close_conns (connections ?p1) (h, ?p1)")
       (auto simp add: Provider_Close_def mu_Lock_def split: prod.splits)
qed

text \<open>
  One listener and one connection that has received its start frame: the call ends
  deadlocked, with the lock held, the entry still in the map and the listener's channel
  still open.
\<close>

theorem Provider_Close_never_returns_witness:
  "\<exists>h p c h' p'. tracked_system = (h, p) \<and> \<not> mu p \<and>
     map_of (connections p) ''MZ1'' = Some 7 \<and> h 7 = Some c \<and> \<not> closeOnce c \<and>
     Provider_Close tracked_system \<noteq>
       Returned None (Map.empty, p\<lparr>connections := [], listeners := []\<rparr>) \<and>
     Provider_Close tracked_system = Deadlocked (h', p') \<and>
     mu p' \<and> connections p' = [(''MZ1'', 7)] \<and>
     listeners p' = [(''/media-stream'', make_chan 10)]"
proof -
  obtain h p where t: "tracked_system = (h, p)" by (cases tracked_system)
  from tracked_system_eval have m: "\<not> mu p"
    and cs: "connections p = [(''MZ1'', 7)]"
    and ls: "listeners p = [(''/media-stream'', make_chan 10)]"
    and e: "case h 7 of None \<Rightarrow> False | Some c \<Rightarrow> live c \<and> streamSID c = ''MZ1'' \<and>
           buf (events c) = [event EventConnected, event EventAudioStarted]"
    unfolding t by simp_all
  from e obtain c where hc: "h 7 = Some c" and l: "live c"
    by (cases "h 7") simp_all
  have k: "map_of (connections p) ''MZ1'' = Some 7" using cs by simp
  have n: "\<not> closeOnce c" using l by (simp add: live_def)
  have a: "Provider_Close tracked_system \<noteq>
      Returned None (Map.empty, p\<lparr>connections := [], listeners := []\<rparr>)"
    unfolding t using m k hc n
    by (rule Provider_Close_never_returns
        [where p = p and sid = "''MZ1''" and a = 7 and h = h and c = c])
  have "\<exists>h' p'. Provider_Close tracked_system = Deadlocked (h', p') \<and>
      mu p' \<and> connections p' = [(''MZ1'', 7)] \<and>
      listeners p' = [(''/media-stream'', make_chan 10)]"
    unfolding t using m cs ls l hc
    by (simp add: Provider_Close_def mu_Lock_def Connection_Close_def close_body_def
        chan_close_def audioWriter_Close_def audioReader_close_def live_def Let_def)
  with t m k hc n a show ?thesis by blast
qed

end
